theory Spec2Isabelle
  imports Main "HOL-Library.Sublist"
begin

section \<open>The box model of \<^verbatim>\<open>weasy/boxes.py\<close>\<close>

text \<open>
  A styled source element, as \<^verbatim>\<open>dom_to_box\<close> reads it: \<^verbatim>\<open>element.style.display\<close>,
  \<^verbatim>\<open>element.text\<close> and \<^verbatim>\<open>element.tail\<close> (each \<^verbatim>\<open>None\<close> or a string), and the child
  elements that iterating the element yields, in document order.
\<close>

datatype element =
  Element (el_display: string) (el_text: "string option") (el_tail: "string option")
    (el_children: "element list")

text \<open>
  The four classes whose instances own a list of children. \<^verbatim>\<open>AnonymousBlockLevelBox\<close> is a
  subclass of \<^verbatim>\<open>BlockLevelBox\<close>; \<^verbatim>\<open>TextBox\<close> sets \<^verbatim>\<open>children = None\<close> and carries a text.
\<close>

datatype box_class = BlockLevelBox | AnonymousBlockLevelBox | LineBox | InlineLevelBox

datatype box =
  Box (box_cls: box_class) (box_element: element) (box_children: "box list")
  | TextBox (box_element: element) (box_text: string)

text \<open>The exceptions the three functions can raise.\<close>

datatype error =
  AssertionError
  | NotImplementedError string
  | AttributeError
  | ValueError
  | TypeError

text \<open>\<^verbatim>\<open>isinstance(box, BlockLevelBox)\<close> on a class: true for the class and its subclass.\<close>

fun is_block_class :: "box_class \<Rightarrow> bool" where
  "is_block_class BlockLevelBox = True"
| "is_block_class AnonymousBlockLevelBox = True"
| "is_block_class LineBox = False"
| "is_block_class InlineLevelBox = False"

fun is_block_level :: "box \<Rightarrow> bool" where
  "is_block_level (Box c e cs) = is_block_class c"
| "is_block_level (TextBox e t) = False"

fun is_line_box :: "box \<Rightarrow> bool" where
  "is_line_box (Box c e cs) = (c = LineBox)"
| "is_line_box (TextBox e t) = False"

fun is_inline_level :: "box \<Rightarrow> bool" where
  "is_inline_level (Box c e cs) = (c = InlineLevelBox)"
| "is_inline_level (TextBox e t) = False"

fun is_anonymous :: "box \<Rightarrow> bool" where
  "is_anonymous (Box c e cs) = (c = AnonymousBlockLevelBox)"
| "is_anonymous (TextBox e t) = False"

fun is_text_box :: "box \<Rightarrow> bool" where
  "is_text_box (Box c e cs) = False"
| "is_text_box (TextBox e t) = True"

text \<open>
  \<^verbatim>\<open>Box.add_child(child)\<close> with no index, on a box that is the only owner of its children:
  the child goes to the end of the list. (The parent link it sets is implicit in the tree.)
\<close>

fun add_child :: "box \<Rightarrow> box \<Rightarrow> box" where
  "add_child (Box c e cs) child = Box c e (cs @ [child])"
| "add_child (TextBox e t) child = TextBox e t"

text \<open>Python's truth value of \<^verbatim>\<open>element.text\<close> and \<^verbatim>\<open>element.tail\<close>: neither None nor empty.\<close>

fun truthy :: "string option \<Rightarrow> bool" where
  "truthy None = False"
| "truthy (Some s) = (s \<noteq> [])"

section \<open>\<^verbatim>\<open>dom_to_box\<close>\<close>

text \<open>The two display tests of the \<^verbatim>\<open>if\<close> / \<^verbatim>\<open>elif\<close> chain.\<close>

definition block_display :: "string \<Rightarrow> bool" where
  "block_display d \<longleftrightarrow>
     d \<in> set [''block'', ''list-item'', ''table''] \<or> prefix ''table-'' d"

definition inline_display :: "string \<Rightarrow> bool" where
  "inline_display d \<longleftrightarrow> d \<in> set [''inline'', ''inline-block'', ''inline-table'', ''ruby'']"

text \<open>
  \<^verbatim>\<open>dom_to_box\<close>, and its \<^verbatim>\<open>for child_element in element\<close> loop as \<open>dom_to_box_loop\<close>:
  the loop takes the element being converted, the children still to visit and the box built
  so far. An exception raised by a recursive call leaves the loop at once.
\<close>

function dom_to_box :: "element \<Rightarrow> error + box"
  and dom_to_box_loop :: "element \<Rightarrow> element list \<Rightarrow> box \<Rightarrow> error + box" where
  "dom_to_box element =
     (let display = el_display element in
      if display = ''none'' then Inl AssertionError
      else if block_display display then
        dom_to_box_loop element (el_children element)
          (if truthy (el_text element)
           then add_child (Box BlockLevelBox element []) (TextBox element (the (el_text element)))
           else Box BlockLevelBox element [])
      else if inline_display display then
        dom_to_box_loop element (el_children element)
          (if truthy (el_text element)
           then add_child (Box InlineLevelBox element []) (TextBox element (the (el_text element)))
           else Box InlineLevelBox element [])
      else Inl (NotImplementedError (''Unsupported display: '' @ display)))"
| "dom_to_box_loop element [] box = Inr box"
| "dom_to_box_loop element (child_element # rest) box =
     (if el_display child_element \<noteq> ''none'' then
        (case dom_to_box child_element of
           Inl err \<Rightarrow> Inl err
         | Inr child_box \<Rightarrow>
             dom_to_box_loop element rest
               (let box1 = add_child box child_box in
                if truthy (el_tail child_element)
                then add_child box1 (TextBox element (the (el_tail child_element)))
                else box1))
      else
        dom_to_box_loop element rest
          (if truthy (el_tail child_element)
           then add_child box (TextBox element (the (el_tail child_element)))
           else box))"
  by pat_completeness auto

lemma size_el_children: "size_list size (el_children element) < size element"
  by (cases element) simp

termination dom_to_box
  by (relation "measure (\<lambda>x. case x of Inl element \<Rightarrow> size element
                                     | Inr (element, rest, box) \<Rightarrow> size_list size rest)")
    (auto simp: size_el_children)

section \<open>\<^verbatim>\<open>inline_in_block\<close>\<close>

text \<open>
  The second loop of \<^verbatim>\<open>inline_in_block\<close>, over the former children of a block-level box:
  \<open>new_children\<close> is \<^verbatim>\<open>box.children\<close> as rebuilt so far and \<open>line\<close> the children of the
  current \<^verbatim>\<open>line_box\<close>. The result is both lists when the loop ends.
\<close>

fun wrap_loop :: "element \<Rightarrow> box list \<Rightarrow> box list \<Rightarrow> box list \<Rightarrow> error + (box list \<times> box list)" where
  "wrap_loop element [] new_children line = Inr (new_children, line)"
| "wrap_loop element (child_box # rest) new_children line =
     (if is_line_box child_box then Inl AssertionError
      else if is_block_level child_box then
        (if line \<noteq> [] then
           wrap_loop element rest
             (new_children @ [Box AnonymousBlockLevelBox element [Box LineBox element line]]
                @ [child_box]) []
         else wrap_loop element rest (new_children @ [child_box]) line)
      else wrap_loop element rest new_children (line @ [child_box]))"

text \<open>
  \<^verbatim>\<open>inline_in_block\<close> changes the tree in place and returns nothing; on a tree (no box
  shared between two parents) that is the function from the tree before to the tree after.
  \<open>inline_in_block_children\<close> is its first loop, the recursive calls on the children.
\<close>

fun inline_in_block :: "box \<Rightarrow> error + box"
  and inline_in_block_children :: "box list \<Rightarrow> error + box list" where
  "inline_in_block (TextBox e t) = Inr (TextBox e t)"
| "inline_in_block (Box c e cs) =
     (case inline_in_block_children cs of
        Inl err \<Rightarrow> Inl err
      | Inr children \<Rightarrow>
          if \<not> is_block_class c then Inr (Box c e children)
          else if length children = 1 \<and> is_line_box (children ! 0) then Inr (Box c e children)
          else
            (case wrap_loop e children [] [] of
               Inl err \<Rightarrow> Inl err
             | Inr (new_children, line) \<Rightarrow>
                 if line \<noteq> [] then
                   (if new_children \<noteq> [] then
                      Inr (Box c e (new_children
                             @ [Box AnonymousBlockLevelBox e [Box LineBox e line]]))
                    else Inr (Box c e [Box LineBox e line]))
                 else Inr (Box c e new_children)))"
| "inline_in_block_children [] = Inr []"
| "inline_in_block_children (child_box # rest) =
     (case inline_in_block child_box of
        Inl err \<Rightarrow> Inl err
      | Inr child_box' \<Rightarrow>
          (case inline_in_block_children rest of
             Inl err \<Rightarrow> Inl err
           | Inr rest' \<Rightarrow> Inr (child_box' # rest')))"

section \<open>Boxes as objects: the store that \<^verbatim>\<open>block_in_inline\<close> works on\<close>

text \<open>
  \<^verbatim>\<open>block_in_inline\<close> reads the \<^verbatim>\<open>parent\<close> links and changes the children lists of
  ancestors while loops higher up in the call stack iterate over them, so boxes and their
  children lists are objects of a store here. A box object holds its class, its element,
  its \<^verbatim>\<open>parent\<close> (None or a box) and its \<^verbatim>\<open>children\<close> (a list object); a \<^verbatim>\<open>TextBox\<close> has
  \<^verbatim>\<open>children = None\<close> and a text. Two references are \<^verbatim>\<open>==\<close> when they are the same
  address (no class defines \<^verbatim>\<open>__eq__\<close>).
\<close>

type_synonym ref = nat

datatype obj =
  BoxObj (obj_cls: box_class) (obj_element: element) (obj_parent: "ref option") (obj_list: ref)
  | TextObj (obj_element: element) (obj_parent: "ref option") (obj_text: string)

record heap =
  box_at :: "ref \<Rightarrow> obj"
  list_at :: "ref \<Rightarrow> ref list"
  box_count :: nat
  list_count :: nat

text \<open>The outcome of running a statement: a value, an exception, or no answer (fuel ran out).\<close>

datatype 'a result = Ok 'a | Raise error | Diverge

fun then_do :: "'a result \<Rightarrow> ('a \<Rightarrow> 'b result) \<Rightarrow> 'b result" where
  "then_do (Ok x) f = f x"
| "then_do (Raise err) f = Raise err"
| "then_do Diverge f = Diverge"

fun obj_children :: "obj \<Rightarrow> ref option" where
  "obj_children (BoxObj c e p l) = Some l"
| "obj_children (TextObj e p t) = None"

fun set_parent :: "ref option \<Rightarrow> obj \<Rightarrow> obj" where
  "set_parent p (BoxObj c e p0 l) = BoxObj c e p l"
| "set_parent p (TextObj e p0 t) = TextObj e p t"

fun set_children :: "ref \<Rightarrow> obj \<Rightarrow> obj" where
  "set_children l (BoxObj c e p l0) = BoxObj c e p l"
| "set_children l (TextObj e p t) = TextObj e p t"

fun obj_is_block :: "obj \<Rightarrow> bool" where
  "obj_is_block (BoxObj c e p l) = is_block_class c"
| "obj_is_block (TextObj e p t) = False"

fun obj_is_inline :: "obj \<Rightarrow> bool" where
  "obj_is_inline (BoxObj c e p l) = (c = InlineLevelBox)"
| "obj_is_inline (TextObj e p t) = False"

definition empty_heap :: heap where
  "empty_heap = \<lparr>box_at = (\<lambda>r. TextObj (Element [] None None []) None []),
                 list_at = (\<lambda>r. []), box_count = 0, list_count = 0\<rparr>"

text \<open>A new empty list object, and \<^verbatim>\<open>Box.__init__\<close> for the classes with children.\<close>

definition new_list :: "ref list \<Rightarrow> heap \<Rightarrow> ref \<times> heap" where
  "new_list xs h =
     (list_count h, h\<lparr>list_at := (list_at h)(list_count h := xs), list_count := Suc (list_count h)\<rparr>)"

definition new_box :: "box_class \<Rightarrow> element \<Rightarrow> heap \<Rightarrow> ref \<times> heap" where
  "new_box c e h =
     (let (l, h1) = new_list [] h in
      (box_count h1,
       h1\<lparr>box_at := (box_at h1)(box_count h1 := BoxObj c e None l), box_count := Suc (box_count h1)\<rparr>))"

definition new_text_box :: "element \<Rightarrow> string \<Rightarrow> heap \<Rightarrow> ref \<times> heap" where
  "new_text_box e t h =
     (box_count h,
      h\<lparr>box_at := (box_at h)(box_count h := TextObj e None t), box_count := Suc (box_count h)\<rparr>)"

text \<open>
  \<^verbatim>\<open>self.add_child(child, index)\<close>: the parent link of the child is set, then the child is
  appended to the list object \<^verbatim>\<open>self.children\<close> (index None) or inserted into it, in place.
\<close>

definition heap_add_child :: "ref \<Rightarrow> ref \<Rightarrow> nat option \<Rightarrow> heap \<Rightarrow> heap result" where
  "heap_add_child self child index h =
     (let h1 = h\<lparr>box_at := (box_at h)(child := set_parent (Some self) (box_at h child))\<rparr> in
      case obj_children (box_at h1 self) of
        None \<Rightarrow> Raise AttributeError
      | Some l \<Rightarrow>
          (let xs = list_at h1 l in
           Ok (h1\<lparr>list_at := (list_at h1)
                  (l := (case index of None \<Rightarrow> xs @ [child]
                                     | Some i \<Rightarrow> take i xs @ [child] @ drop i xs))\<rparr>)))"

text \<open>\<^verbatim>\<open>list.index(x)\<close>: the position of the first occurrence, or ValueError.\<close>

fun list_index :: "ref list \<Rightarrow> ref \<Rightarrow> nat result" where
  "list_index [] x = Raise ValueError"
| "list_index (y # ys) x =
     (if y = x then Ok 0 else then_do (list_index ys x) (\<lambda>i. Ok (Suc i)))"

text \<open>The property \<^verbatim>\<open>Box.index\<close>: None for a box without parent.\<close>

definition box_index :: "ref \<Rightarrow> heap \<Rightarrow> nat option result" where
  "box_index self h =
     (case obj_parent (box_at h self) of
        None \<Rightarrow> Ok None
      | Some p \<Rightarrow>
          (case obj_children (box_at h p) of
             None \<Rightarrow> Raise AttributeError
           | Some l \<Rightarrow> then_do (list_index (list_at h l) self) (\<lambda>i. Ok (Some i))))"

text \<open>\<^verbatim>\<open>box.index + 1\<close>: adding 1 to None is a TypeError.\<close>

definition index_plus_1 :: "ref \<Rightarrow> heap \<Rightarrow> nat result" where
  "index_plus_1 self h =
     then_do (box_index self h) (\<lambda>i. case i of None \<Rightarrow> Raise TypeError | Some i \<Rightarrow> Ok (Suc i))"

section \<open>\<^verbatim>\<open>block_in_inline\<close>\<close>

text \<open>
  The first loop over \<^verbatim>\<open>box.parents\<close>: the generator yields the parent of the box it stands
  on, as long as there is one. The loop collects the inline-level boxes it meets and stops at
  the first box of another class, which becomes \<^verbatim>\<open>parent_line_box\<close>; when the generator is
  exhausted first, \<^verbatim>\<open>parent_line_box\<close> stays None. On a cyclic chain of inline-level parents
  the loop does not end.
\<close>

fun collect_inline_parents :: "nat \<Rightarrow> heap \<Rightarrow> ref \<Rightarrow> ref list \<Rightarrow> (ref list \<times> ref option) result" where
  "collect_inline_parents 0 h cur inline_parents = Diverge"
| "collect_inline_parents (Suc n) h cur inline_parents =
     (case obj_parent (box_at h cur) of
        None \<Rightarrow> Ok (inline_parents, None)
      | Some parent \<Rightarrow>
          if obj_is_inline (box_at h parent)
          then collect_inline_parents n h parent (inline_parents @ [parent])
          else Ok (inline_parents, Some parent))"

text \<open>
  \<^verbatim>\<open>previous_anonymous_box\<close> is created for the element of \<^verbatim>\<open>parent_line_box\<close>, inserted
  into the parent of \<^verbatim>\<open>parent_line_box\<close> at the position of \<^verbatim>\<open>parent_line_box\<close>, which is
  then removed from that list (\<^verbatim>\<open>list.remove\<close>, in place) and added to the new box.
  (The source reads \<^verbatim>\<open>parent_line_box.parent\<close> again for the removal; \<^verbatim>\<open>add_child\<close> has set
  the parent of the new box only, so it is the same box \<open>g\<close>.)
\<close>

definition insert_previous_anonymous_box :: "ref option \<Rightarrow> heap \<Rightarrow> (ref \<times> heap) result" where
  "insert_previous_anonymous_box parent_line_box h =
     (case parent_line_box of
        None \<Rightarrow> Raise AttributeError
      | Some plb \<Rightarrow>
          (let (previous_anonymous_box, h1) =
                 new_box AnonymousBlockLevelBox (obj_element (box_at h plb)) h in
           case obj_parent (box_at h1 plb) of
             None \<Rightarrow> Raise AttributeError
           | Some g \<Rightarrow>
               then_do (box_index plb h1) (\<lambda>i.
               then_do (heap_add_child g previous_anonymous_box i h1) (\<lambda>h2.
               case obj_children (box_at h2 g) of
                 None \<Rightarrow> Raise AttributeError
               | Some l \<Rightarrow>
                   if plb \<notin> set (list_at h2 l) then Raise ValueError
                   else
                     then_do
                       (heap_add_child previous_anonymous_box plb None
                          (h2\<lparr>list_at := (list_at h2)(l := remove1 plb (list_at h2 l))\<rparr>))
                       (\<lambda>h3. Ok (previous_anonymous_box, h3))))))"

text \<open>
  \<^verbatim>\<open>next_anonymous_box\<close> is created for the same element and inserted into the parent of
  \<^verbatim>\<open>previous_anonymous_box\<close>, right after it.
\<close>

definition insert_next_anonymous_box :: "ref \<Rightarrow> ref \<Rightarrow> heap \<Rightarrow> (ref \<times> heap) result" where
  "insert_next_anonymous_box plb previous_anonymous_box h =
     (let (next_anonymous_box, h1) =
            new_box AnonymousBlockLevelBox (obj_element (box_at h plb)) h in
      case obj_parent (box_at h1 previous_anonymous_box) of
        None \<Rightarrow> Raise AttributeError
      | Some g \<Rightarrow>
          then_do (index_plus_1 previous_anonymous_box h1) (\<lambda>j.
          then_do (heap_add_child g next_anonymous_box (Some j) h1) (\<lambda>h2.
          Ok (next_anonymous_box, h2))))"

text \<open>
  The \<^verbatim>\<open>while inline_parents\<close> loop: \<^verbatim>\<open>pop()\<close> takes the last box collected, so the loop runs
  over the reversed list. Each clone is an empty \<^verbatim>\<open>InlineLevelBox\<close> for the same element,
  added to the box created before it. The result is the innermost clone.
\<close>

fun clone_inline_parents :: "ref list \<Rightarrow> ref \<Rightarrow> heap \<Rightarrow> (ref \<times> heap) result" where
  "clone_inline_parents [] next_anonymous_box h = Ok (next_anonymous_box, h)"
| "clone_inline_parents (parent # popped_later) next_anonymous_box h =
     (let (clone_inline_box, h1) = new_box InlineLevelBox (obj_element (box_at h parent)) h in
      then_do (heap_add_child next_anonymous_box clone_inline_box None h1)
        (clone_inline_parents popped_later clone_inline_box))"

text \<open>\<^verbatim>\<open>for child in next_children: next_anonymous_box.add_child(child)\<close>.\<close>

fun add_next_children :: "ref option \<Rightarrow> ref list \<Rightarrow> heap \<Rightarrow> heap result" where
  "add_next_children next_anonymous_box [] h = Ok h"
| "add_next_children next_anonymous_box (child # rest) h =
     (case next_anonymous_box of
        None \<Rightarrow> Raise AttributeError
      | Some nab \<Rightarrow> then_do (heap_add_child nab child None h) (add_next_children next_anonymous_box rest))"

text \<open>
  The second loop over \<^verbatim>\<open>box.parents\<close>. The generator stands on \<^verbatim>\<open>splitter_box\<close> at the start
  of every round (both start at \<^verbatim>\<open>box\<close> and both move to \<^verbatim>\<open>parent\<close>). In a round, the
  slice after \<^verbatim>\<open>splitter_box\<close> goes to \<^verbatim>\<open>next_anonymous_box\<close>, and \<^verbatim>\<open>parent.children\<close> becomes
  a new list object holding the slice before \<^verbatim>\<open>splitter_box\<close>; the list object that was
  \<^verbatim>\<open>parent.children\<close> is not changed. The round ends with
  \<^verbatim>\<open>next_anonymous_box = next_anonymous_box.parent\<close>, which raises when \<^verbatim>\<open>next_anonymous_box\<close>
  is None.
\<close>

fun move_next_children :: "nat \<Rightarrow> ref \<Rightarrow> ref \<Rightarrow> ref option \<Rightarrow> heap \<Rightarrow> heap result" where
  "move_next_children 0 parent_line_box splitter_box next_anonymous_box h = Diverge"
| "move_next_children (Suc n) parent_line_box splitter_box next_anonymous_box h =
     (case obj_parent (box_at h splitter_box) of
        None \<Rightarrow> Ok h
      | Some parent \<Rightarrow>
          if parent = parent_line_box then Ok h
          else
            then_do (index_plus_1 splitter_box h) (\<lambda>i1.
            (case obj_children (box_at h parent) of
               None \<Rightarrow> Raise TypeError
             | Some l \<Rightarrow>
                 (let next_children = drop i1 (list_at h l) in
                  then_do (box_index splitter_box h) (\<lambda>i.
                  (let (l', h1) = new_list (case i of None \<Rightarrow> list_at h l
                                                   | Some i \<Rightarrow> take i (list_at h l)) h;
                       h2 = h1\<lparr>box_at := (box_at h1)(parent := set_children l' (box_at h1 parent))\<rparr>
                   in
                   then_do (add_next_children next_anonymous_box next_children h2) (\<lambda>h3.
                   (case next_anonymous_box of
                      None \<Rightarrow> Raise AttributeError
                    | Some nab \<Rightarrow>
                        move_next_children n parent_line_box parent
                          (obj_parent (box_at h3 nab)) h3))))))))"

text \<open>
  The body of \<^verbatim>\<open>if box.parent and isinstance(box.parent, InlineLevelBox)\<close>. When
  \<^verbatim>\<open>parent_line_box\<close> is None the first statement after the first loop raises, so the later
  statements run with a box.
\<close>

definition split_inline_parents :: "nat \<Rightarrow> ref \<Rightarrow> heap \<Rightarrow> heap result" where
  "split_inline_parents n box h =
     then_do (collect_inline_parents n h box []) (\<lambda>(inline_parents, parent_line_box).
     then_do (insert_previous_anonymous_box parent_line_box h) (\<lambda>(previous_anonymous_box, h1).
     then_do (insert_next_anonymous_box (the parent_line_box) previous_anonymous_box h1)
       (\<lambda>(next_anonymous_box, h2).
     then_do (clone_inline_parents (rev inline_parents) next_anonymous_box h2) (\<lambda>(innermost, h3).
     then_do (move_next_children n (the parent_line_box) box (Some innermost) h3) (\<lambda>h4.
     case obj_parent (box_at h4 previous_anonymous_box) of
       None \<Rightarrow> Raise AttributeError
     | Some g \<Rightarrow>
         then_do (index_plus_1 previous_anonymous_box h4) (\<lambda>j.
         heap_add_child g box (Some j) h4))))))"

text \<open>
  The two tests that guard the split: \<^verbatim>\<open>isinstance(box, BlockLevelBox)\<close>, and
  \<^verbatim>\<open>box.parent and isinstance(box.parent, InlineLevelBox)\<close> (a box is true, None is not).
\<close>

definition is_block_in_inline :: "heap \<Rightarrow> ref \<Rightarrow> bool" where
  "is_block_in_inline h box \<longleftrightarrow>
     obj_is_block (box_at h box) \<and>
     (case obj_parent (box_at h box) of
        None \<Rightarrow> False
      | Some parent \<Rightarrow> obj_is_inline (box_at h parent))"

text \<open>
  \<^verbatim>\<open>block_in_inline\<close>, with its closing loop \<^verbatim>\<open>for child_box in box.children or []\<close> as
  \<open>block_in_inline_children\<close>. The loop iterates over a list object: it holds the object
  and a position, and in each round reads the list as it is then, so that boxes inserted into
  this very list by a call further down are visited (or skipped) as Python does. Each call
  and each round of the loop costs one unit of fuel.
\<close>

fun block_in_inline :: "nat \<Rightarrow> ref \<Rightarrow> heap \<Rightarrow> heap result"
  and block_in_inline_children :: "nat \<Rightarrow> ref \<Rightarrow> nat \<Rightarrow> heap \<Rightarrow> heap result" where
  "block_in_inline 0 box h = Diverge"
| "block_in_inline (Suc n) box h =
     then_do
       (if is_block_in_inline h box then split_inline_parents n box h else Ok h)
       (\<lambda>h1. case obj_children (box_at h1 box) of
                None \<Rightarrow> Ok h1
              | Some l \<Rightarrow> if list_at h1 l = [] then Ok h1 else block_in_inline_children n l 0 h1)"
| "block_in_inline_children 0 l i h = Diverge"
| "block_in_inline_children (Suc n) l i h =
     (if i < length (list_at h l)
      then then_do (block_in_inline n (list_at h l ! i) h) (block_in_inline_children n l (Suc i))
      else Ok h)"

section \<open>Trees in the store\<close>

text \<open>
  \<open>alloc\<close> puts a box tree into the store, with the parent links that \<^verbatim>\<open>add_child\<close> would
  have set, and returns the address of its root; \<open>tree_of\<close> reads the tree below a box back,
  following \<^verbatim>\<open>children\<close> only (to a depth of at most the fuel).
\<close>

fun alloc :: "box \<Rightarrow> heap \<Rightarrow> ref \<times> heap"
  and alloc_children :: "ref \<Rightarrow> box list \<Rightarrow> heap \<Rightarrow> ref list \<times> heap" where
  "alloc (TextBox e t) h = new_text_box e t h"
| "alloc (Box c e cs) h =
     (let (b, h1) = new_box c e h;
          (rs, h2) = alloc_children b cs h1
      in (b, h2\<lparr>list_at := (list_at h2)(obj_list (box_at h2 b) := rs)\<rparr>))"
| "alloc_children p [] h = ([], h)"
| "alloc_children p (c # cs) h =
     (let (r, h1) = alloc c h;
          h2 = h1\<lparr>box_at := (box_at h1)(r := set_parent (Some p) (box_at h1 r))\<rparr>;
          (rs, h3) = alloc_children p cs h2
      in (r # rs, h3))"

fun tree_of :: "nat \<Rightarrow> heap \<Rightarrow> ref \<Rightarrow> box option" where
  "tree_of 0 h r = None"
| "tree_of (Suc n) h r =
     (case box_at h r of
        TextObj e p t \<Rightarrow> Some (TextBox e t)
      | BoxObj c e p l \<Rightarrow> map_option (Box c e) (those (map (tree_of n h) (list_at h l))))"

text \<open>
  Running \<^verbatim>\<open>block_in_inline\<close> on the root of a tree: the tree is put into an empty store, the
  function runs on its root, and the tree below the root is read back.
\<close>

definition run_block_in_inline :: "nat \<Rightarrow> box \<Rightarrow> box result" where
  "run_block_in_inline n t =
     (let (root, h) = alloc t empty_heap in
      then_do (block_in_inline n root h) (\<lambda>h'.
      case tree_of n h' root of None \<Rightarrow> Diverge | Some t' \<Rightarrow> Ok t'))"

section \<open>Reading a box tree\<close>

text \<open>
  All boxes of a tree, each before its descendants and siblings left to right; and the texts
  of its \<^verbatim>\<open>TextBox\<close> leaves, left to right.
\<close>

fun boxes_of :: "box \<Rightarrow> box list" where
  "boxes_of (TextBox e t) = [TextBox e t]"
| "boxes_of (Box c e cs) = Box c e cs # concat (map boxes_of cs)"

fun texts_of :: "box \<Rightarrow> string list" where
  "texts_of (TextBox e t) = [t]"
| "texts_of (Box c e cs) = concat (map texts_of cs)"

text \<open>
  The test \<^verbatim>\<open>len(box.children) == 1 and isinstance(box.children[0], LineBox)\<close> of
  \<^verbatim>\<open>inline_in_block\<close>, on a list of children.
\<close>

definition one_line_box :: "box list \<Rightarrow> bool" where
  "one_line_box cs \<longleftrightarrow> length cs = 1 \<and> is_line_box (cs ! 0)"

text \<open>
  A block-level box is settled when its children are exactly one \<^verbatim>\<open>LineBox\<close> or are all
  block-level; a tree is settled when all its block-level boxes are.
\<close>

definition settled_box :: "box \<Rightarrow> bool" where
  "settled_box b \<longleftrightarrow>
     (is_block_level b \<longrightarrow> one_line_box (box_children b) \<or> list_all is_block_level (box_children b))"

definition settled :: "box \<Rightarrow> bool" where
  "settled t \<longleftrightarrow> list_all settled_box (boxes_of t)"

text \<open>
  The trees on which no \<^verbatim>\<open>assert not isinstance(child_box, LineBox)\<close> fails: a block-level
  box that has a \<^verbatim>\<open>LineBox\<close> among its children has no other child.
\<close>

definition no_nested_line_box :: "box \<Rightarrow> bool" where
  "no_nested_line_box t \<longleftrightarrow>
     list_all (\<lambda>b. is_block_level b \<longrightarrow> list_ex is_line_box (box_children b) \<longrightarrow>
                    length (box_children b) = 1) (boxes_of t)"

text \<open>
  The generator \<^verbatim>\<open>Box.parents\<close> in the store: the parent of a box, then the parent of that
  box, and so on while there is one (at most as many as the fuel).
\<close>

fun parents :: "nat \<Rightarrow> heap \<Rightarrow> ref \<Rightarrow> ref list" where
  "parents 0 h box = []"
| "parents (Suc n) h box =
     (case obj_parent (box_at h box) of
        None \<Rightarrow> []
      | Some parent \<Rightarrow> parent # parents n h parent)"

text \<open>
  The ancestors that the first loop of \<open>block_in_inline\<close> meets, read off the store without
  running the loop: \<open>inline_ancestors h box ips r\<close> says that the parents of \<open>box\<close> are the
  inline-level boxes \<open>ips\<close>, nearest first, and that the chain ends there, either at a box \<open>r\<close>
  that is not inline-level, or (\<open>r\<close> is None) at a box without parent.
\<close>

fun inline_ancestors :: "heap \<Rightarrow> ref \<Rightarrow> ref list \<Rightarrow> ref option \<Rightarrow> bool" where
  "inline_ancestors h box [] None = (obj_parent (box_at h box) = None)"
| "inline_ancestors h box [] (Some plb) =
     (obj_parent (box_at h box) = Some plb \<and> \<not> obj_is_inline (box_at h plb))"
| "inline_ancestors h box (parent # ips) r =
     (obj_parent (box_at h box) = Some parent \<and> obj_is_inline (box_at h parent) \<and>
      inline_ancestors h parent ips r)"

text \<open>No inline-level box of the tree has a block-level box below it.\<close>

definition no_block_in_inline :: "box \<Rightarrow> bool" where
  "no_block_in_inline t \<longleftrightarrow>
     list_all (\<lambda>b. is_inline_level b \<longrightarrow> list_all (\<lambda>d. \<not> is_block_level d) (boxes_of b))
       (boxes_of t)"

section \<open>Example inputs\<close>

text \<open>An element with leading text, an inline child, a hidden child and a table cell.\<close>

definition example_element :: element where
  "example_element =
     Element ''block'' (Some ''Some '') None
       [Element ''inline'' (Some ''emphasised'') (Some '' text.'') [],
        Element ''none'' (Some ''hidden'') (Some ''after hidden'') [],
        Element ''table-cell'' None (Some []) []]"

text \<open>
  The example in the documentation of \<^verbatim>\<open>inline_in_block\<close>: a block-level box with a text,
  an inline-level box and a block-level box, and the tree it is turned into.
\<close>

definition mixed_example :: box where
  "mixed_example =
     Box BlockLevelBox (Element ''block'' None None [])
       [TextBox (Element ''block'' None None []) ''Some '',
        Box InlineLevelBox (Element ''inline'' None None [])
          [TextBox (Element ''inline'' None None []) ''text''],
        Box BlockLevelBox (Element ''table'' None None [])
          [TextBox (Element ''table'' None None []) ''More text'']]"

definition mixed_example_result :: box where
  "mixed_example_result =
     Box BlockLevelBox (Element ''block'' None None [])
       [Box AnonymousBlockLevelBox (Element ''block'' None None [])
          [Box LineBox (Element ''block'' None None [])
             [TextBox (Element ''block'' None None []) ''Some '',
              Box InlineLevelBox (Element ''inline'' None None [])
                [TextBox (Element ''inline'' None None []) ''text'']]],
        Box BlockLevelBox (Element ''table'' None None [])
          [Box LineBox (Element ''table'' None None [])
             [TextBox (Element ''table'' None None []) ''More text'']]]"

text \<open>
  The example in the documentation of \<^verbatim>\<open>block_in_inline\<close>: two inline-level boxes nested in
  a line, the inner one with a text and two block-level boxes, the outer one with a third
  block-level box after it.
\<close>

definition nested_example :: box where
  "nested_example =
     Box BlockLevelBox (Element ''b0'' None None [])
       [Box LineBox (Element ''b0'' None None [])
          [Box InlineLevelBox (Element ''i1'' None None [])
             [TextBox (Element ''i1'' None None []) ''Hello.''],
           Box InlineLevelBox (Element ''i2'' None None [])
             [TextBox (Element ''i2'' None None []) ''Some '',
              Box InlineLevelBox (Element ''i3'' None None [])
                [TextBox (Element ''i3'' None None []) ''text'',
                 Box BlockLevelBox (Element ''b1'' None None [])
                   [Box LineBox (Element ''b1'' None None [])
                      [TextBox (Element ''b1'' None None []) ''More text'']],
                 Box BlockLevelBox (Element ''b2'' None None [])
                   [Box LineBox (Element ''b2'' None None [])
                      [TextBox (Element ''b2'' None None []) ''More text again'']]],
              Box BlockLevelBox (Element ''b3'' None None [])
                [Box LineBox (Element ''b3'' None None [])
                   [TextBox (Element ''b3'' None None []) ''And again.'']]]]]"

text \<open>What \<open>block_in_inline\<close> makes of it: the inner inline-level box and its text are gone.\<close>

definition nested_example_result :: box where
  "nested_example_result =
     Box BlockLevelBox (Element ''b0'' None None [])
       [Box AnonymousBlockLevelBox (Element ''b0'' None None [])
          [Box LineBox (Element ''b0'' None None [])
             [Box InlineLevelBox (Element ''i1'' None None [])
                [TextBox (Element ''i1'' None None []) ''Hello.''],
              Box InlineLevelBox (Element ''i2'' None None [])
                [TextBox (Element ''i2'' None None []) ''Some '']]],
        Box BlockLevelBox (Element ''b1'' None None [])
          [Box LineBox (Element ''b1'' None None [])
             [TextBox (Element ''b1'' None None []) ''More text'']],
        Box AnonymousBlockLevelBox (Element ''b0'' None None [])
          [Box AnonymousBlockLevelBox (Element ''b0'' None None [])
             [Box InlineLevelBox (Element ''i2'' None None []) []]],
        Box BlockLevelBox (Element ''b2'' None None [])
          [Box LineBox (Element ''b2'' None None [])
             [TextBox (Element ''b2'' None None []) ''More text again'']],
        Box AnonymousBlockLevelBox (Element ''b0'' None None [])
          [Box AnonymousBlockLevelBox (Element ''b0'' None None [])
             [Box InlineLevelBox (Element ''i2'' None None [])
                [Box InlineLevelBox (Element ''i3'' None None []) []]]],
        Box BlockLevelBox (Element ''b3'' None None [])
          [Box LineBox (Element ''b3'' None None [])
             [TextBox (Element ''b3'' None None []) ''And again.'']],
        Box AnonymousBlockLevelBox (Element ''b0'' None None [])
          [Box InlineLevelBox (Element ''i2'' None None []) []]]"

text \<open>A line in which a text follows the inline-level box that holds a block-level box.\<close>

definition trailing_example :: box where
  "trailing_example =
     Box BlockLevelBox (Element ''b0'' None None [])
       [Box LineBox (Element ''b0'' None None [])
          [Box InlineLevelBox (Element ''i1'' None None [])
             [TextBox (Element ''i1'' None None []) ''one'',
              Box BlockLevelBox (Element ''b1'' None None [])
                [Box LineBox (Element ''b1'' None None [])
                   [TextBox (Element ''b1'' None None []) ''two'']],
              TextBox (Element ''i1'' None None []) ''three''],
           TextBox (Element ''b0'' None None []) ''four'']]"

text \<open>
  Two stores in which a block-level box (at address 2) has only inline-level ancestors, and
  inline-level ancestors below a line box that has no parent.
\<close>

definition orphan_heap :: heap where
  "orphan_heap =
     snd (alloc (Box InlineLevelBox (Element ''inline'' None None [])
                   [Box InlineLevelBox (Element ''inline'' None None [])
                      [Box BlockLevelBox (Element ''block'' None None []) []]]) empty_heap)"

definition orphan_line_heap :: heap where
  "orphan_line_heap =
     snd (alloc (Box LineBox (Element ''block'' None None [])
                   [Box InlineLevelBox (Element ''inline'' None None [])
                      [Box BlockLevelBox (Element ''block'' None None []) []]]) empty_heap)"

text \<open>
  A store where the first ancestor that is not inline-level is a \<^verbatim>\<open>BlockLevelBox\<close> with a
  parent: box 0 holds box 1, which holds the inline-level box 2 around the block-level box 3.
\<close>

definition block_parent_heap :: heap where
  "block_parent_heap =
     snd (alloc (Box BlockLevelBox (Element ''g'' None None [])
                   [Box BlockLevelBox (Element ''a'' None None [])
                      [Box InlineLevelBox (Element ''i'' None None [])
                         [Box BlockLevelBox (Element ''b'' None None []) []]]]) empty_heap)"

text \<open>
  A settled tree that \<^verbatim>\<open>inline_in_block\<close> does not produce: the inline-level box holds a
  \<^verbatim>\<open>LineBox\<close>, and the block-level box is in that line box.
\<close>

definition line_in_inline_example :: box where
  "line_in_inline_example =
     Box BlockLevelBox (Element ''block'' None None [])
       [Box LineBox (Element ''block'' None None [])
          [Box InlineLevelBox (Element ''inline'' None None [])
             [Box LineBox (Element ''inline'' None None [])
                [Box BlockLevelBox (Element ''block'' None None []) []]]]]"

section \<open>Running the store functions by rewriting\<close>

text \<open>
  Running a function on a given store is done by rewriting with its equations. The second
  argument of \<open>then_do\<close> is only looked at once the first is a result.
\<close>

lemma then_do_cong [cong]: "r = r' \<Longrightarrow> then_do r f = then_do r' f"
  by simp

lemmas heap_defs = new_box_def new_list_def new_text_box_def empty_heap_def heap_add_child_def
  box_index_def index_plus_1_def split_inline_parents_def insert_previous_anonymous_box_def
  insert_next_anonymous_box_def is_block_in_inline_def

section \<open>Properties of \<^verbatim>\<open>dom_to_box\<close>\<close>

text \<open>
  The equation of \<open>dom_to_box\<close> is unfolded by hand where it is needed. The first two
  lemmas describe the loop over the child elements: what it appends, and when it succeeds.
\<close>

declare dom_to_box.simps [simp del]

lemma dom_to_box_loop_result:
  "dom_to_box_loop e rest (Box c e0 acc) = Inr b \<Longrightarrow>
     (\<forall>ch\<in>set rest. el_display ch \<noteq> ''none'' \<longrightarrow> (\<exists>cb. dom_to_box ch = Inr cb)) \<and>
     b = Box c e0 (acc @ concat (map (\<lambda>ch.
           (if el_display ch \<noteq> ''none'' then [projr (dom_to_box ch)] else []) @
           (if truthy (el_tail ch) then [TextBox e (the (el_tail ch))] else [])) rest))"
proof (induction rest arbitrary: acc)
  case Nil
  then show ?case by simp
next
  case (Cons ch rest)
  let ?tl = "if truthy (el_tail ch) then [TextBox e (the (el_tail ch))] else []"
  show ?case
  proof (cases "el_display ch = ''none''")
    case True
    with Cons.prems have "dom_to_box_loop e rest (Box c e0 (acc @ ?tl)) = Inr b"
      by (simp split: if_splits)
    from Cons.IH [OF this] True show ?thesis
      by auto
  next
    case False
    with Cons.prems obtain cb where cb: "dom_to_box ch = Inr cb"
      by (auto split: sum.splits)
    with False Cons.prems have "dom_to_box_loop e rest (Box c e0 (acc @ [cb] @ ?tl)) = Inr b"
      by (simp add: Let_def split: if_splits)
    from Cons.IH [OF this] False cb show ?thesis
      by auto
  qed
qed

lemma dom_to_box_loop_succeeds:
  "(\<forall>ch\<in>set rest. el_display ch \<noteq> ''none'' \<longrightarrow> (\<exists>cb. dom_to_box ch = Inr cb)) \<Longrightarrow>
     \<exists>cs. dom_to_box_loop e rest (Box c e0 acc) = Inr (Box c e0 cs)"
proof (induction rest arbitrary: acc)
  case Nil
  then show ?case by simp
next
  case (Cons ch rest)
  then show ?case
    by (auto simp: Let_def)
qed

lemma dom_to_box_block:
  assumes "block_display (el_display e)"
  shows "(\<forall>b. dom_to_box e = Inr b \<longrightarrow> (\<exists>cs. b = Box BlockLevelBox e cs)) \<and>
     ((\<forall>c\<in>set (el_children e). el_display c \<noteq> ''none'' \<longrightarrow> (\<exists>cb. dom_to_box c = Inr cb)) \<longrightarrow>
        (\<exists>cs. dom_to_box e = Inr (Box BlockLevelBox e cs)))"
proof -
  from assms have nn: "el_display e \<noteq> ''none''"
    by (auto simp: block_display_def)
  show ?thesis
    using assms nn dom_to_box_loop_result [of e "el_children e" BlockLevelBox e]
      dom_to_box_loop_succeeds [of "el_children e" e BlockLevelBox e]
    by (auto simp: dom_to_box.simps [of e] Let_def)
qed

lemma inline_not_block: "inline_display d \<Longrightarrow> \<not> block_display d \<and> d \<noteq> ''none''"
  by (auto simp: inline_display_def block_display_def)

lemma dom_to_box_inline:
  assumes "inline_display (el_display e)"
  shows "(\<forall>b. dom_to_box e = Inr b \<longrightarrow> (\<exists>cs. b = Box InlineLevelBox e cs)) \<and>
     ((\<forall>c\<in>set (el_children e). el_display c \<noteq> ''none'' \<longrightarrow> (\<exists>cb. dom_to_box c = Inr cb)) \<longrightarrow>
        (\<exists>cs. dom_to_box e = Inr (Box InlineLevelBox e cs)))"
  using assms inline_not_block [OF assms] dom_to_box_loop_result [of e "el_children e" InlineLevelBox e]
      dom_to_box_loop_succeeds [of "el_children e" e InlineLevelBox e]
  by (auto simp: dom_to_box.simps [of e] Let_def)

lemma dom_to_box_unsupported:
  "el_display e \<noteq> ''none'' \<Longrightarrow> \<not> block_display (el_display e) \<Longrightarrow> \<not> inline_display (el_display e) \<Longrightarrow>
     dom_to_box e = Inl (NotImplementedError (''Unsupported display: '' @ el_display e))"
  by (simp add: dom_to_box.simps [of e] Let_def)

text \<open>
  Claim C5. An element whose display is \<^verbatim>\<open>block\<close>, \<^verbatim>\<open>list-item\<close>, \<^verbatim>\<open>table\<close> or starts with
  \<^verbatim>\<open>table-\<close> gets a \<^verbatim>\<open>BlockLevelBox\<close> for this element: every box \<open>dom_to_box\<close> returns for
  it is one, and it does return one whenever the conversion of every child that is not
  skipped returns. The same holds with \<^verbatim>\<open>InlineLevelBox\<close> for \<^verbatim>\<open>inline\<close>, \<^verbatim>\<open>inline-block\<close>,
  \<^verbatim>\<open>inline-table\<close> and \<^verbatim>\<open>ruby\<close>. For every other display but \<^verbatim>\<open>none\<close> the call raises
  \<^verbatim>\<open>NotImplementedError\<close> with a message that names the display (the error the specification
  calls UnsupportedDisplay), and no box is returned.
\<close>

theorem dom_to_box_classification:
  "(block_display (el_display e) \<longrightarrow>
      (\<forall>b. dom_to_box e = Inr b \<longrightarrow> (\<exists>cs. b = Box BlockLevelBox e cs)) \<and>
      ((\<forall>c\<in>set (el_children e). el_display c \<noteq> ''none'' \<longrightarrow> (\<exists>cb. dom_to_box c = Inr cb)) \<longrightarrow>
         (\<exists>cs. dom_to_box e = Inr (Box BlockLevelBox e cs)))) \<and>
   (inline_display (el_display e) \<longrightarrow>
      (\<forall>b. dom_to_box e = Inr b \<longrightarrow> (\<exists>cs. b = Box InlineLevelBox e cs)) \<and>
      ((\<forall>c\<in>set (el_children e). el_display c \<noteq> ''none'' \<longrightarrow> (\<exists>cb. dom_to_box c = Inr cb)) \<longrightarrow>
         (\<exists>cs. dom_to_box e = Inr (Box InlineLevelBox e cs)))) \<and>
   (el_display e \<noteq> ''none'' \<and> \<not> block_display (el_display e) \<and> \<not> inline_display (el_display e) \<longrightarrow>
      dom_to_box e = Inl (NotImplementedError (''Unsupported display: '' @ el_display e)))"
  using dom_to_box_block [of e] dom_to_box_inline [of e] dom_to_box_unsupported [of e]
  by blast

text \<open>The classification at \<^verbatim>\<open>table-row\<close>, \<^verbatim>\<open>list-item\<close>, \<^verbatim>\<open>inline-block\<close> and \<^verbatim>\<open>flex\<close>.\<close>

theorem dom_to_box_classification_witness:
  "(\<exists>cs. dom_to_box (Element ''table-row'' None None []) =
            Inr (Box BlockLevelBox (Element ''table-row'' None None []) cs)) \<and>
   (\<exists>cs. dom_to_box (Element ''list-item'' None None []) =
            Inr (Box BlockLevelBox (Element ''list-item'' None None []) cs)) \<and>
   (\<exists>cs. dom_to_box (Element ''inline-block'' None None []) =
            Inr (Box InlineLevelBox (Element ''inline-block'' None None []) cs)) \<and>
   dom_to_box (Element ''flex'' None None []) = Inl (NotImplementedError ''Unsupported display: flex'')"
  using dom_to_box_classification [of "Element ''table-row'' None None []"]
    dom_to_box_classification [of "Element ''list-item'' None None []"]
    dom_to_box_classification [of "Element ''inline-block'' None None []"]
    dom_to_box_classification [of "Element ''flex'' None None []"]
  by (simp add: block_display_def inline_display_def)


lemma dom_to_box_root:
  assumes "dom_to_box e = Inr b"
  shows "\<exists>c cs. b = Box c e cs \<and> (c = BlockLevelBox \<or> c = InlineLevelBox)"
proof -
  from assms have "block_display (el_display e) \<or> inline_display (el_display e)"
    by (auto simp: dom_to_box.simps [of e] Let_def split: if_splits)
  with assms dom_to_box_block [of e] dom_to_box_inline [of e] show ?thesis
    by blast
qed

lemma dom_to_box_children_eq:
  assumes "dom_to_box e = Inr b"
  shows "(\<forall>ch\<in>set (el_children e). el_display ch \<noteq> ''none'' \<longrightarrow> (\<exists>cb. dom_to_box ch = Inr cb)) \<and>
     box_children b =
       (if truthy (el_text e) then [TextBox e (the (el_text e))] else []) @
       concat (map (\<lambda>ch.
          (if el_display ch \<noteq> ''none'' then [projr (dom_to_box ch)] else []) @
          (if truthy (el_tail ch) then [TextBox e (the (el_tail ch))] else [])) (el_children e))"
proof -
  let ?lead = "if truthy (el_text e) then [TextBox e (the (el_text e))] else []"
  from assms obtain c where "dom_to_box_loop e (el_children e) (Box c e ?lead) = Inr b"
    by (auto simp: dom_to_box.simps [of e] Let_def split: if_splits)
  from dom_to_box_loop_result [OF this] show ?thesis
    by simp
qed

text \<open>
  Claim C6 says that nothing a child with display \<^verbatim>\<open>none\<close> contributes is appended. The test
  of \<^verbatim>\<open>child_element.tail\<close> stands outside the test of the display, so the tail text of
  such a child is appended: here the hidden child has the tail \<^verbatim>\<open>tail\<close>, and the box built
  for its parent has a \<^verbatim>\<open>TextBox\<close> for it.
\<close>

theorem dom_to_box_none_child_tail_counterexample:
  "el_display (Element ''none'' None (Some ''tail'') []) = ''none'' \<and>
   dom_to_box (Element ''block'' None None [Element ''none'' None (Some ''tail'') []]) =
     Inr (Box BlockLevelBox (Element ''block'' None None [Element ''none'' None (Some ''tail'') []])
            [TextBox (Element ''block'' None None [Element ''none'' None (Some ''tail'') []]) ''tail''])"
  by (simp add: dom_to_box.simps block_display_def Let_def)

text \<open>
  Claim C6, amended. When \<open>dom_to_box\<close> returns a box for an element, the conversion of every
  child whose display is not \<^verbatim>\<open>none\<close> has returned a box, and the children of the box are:
  a \<^verbatim>\<open>TextBox\<close> for the leading text when it is not empty; then, for each child element in
  document order, the box built for the child unless its display is \<^verbatim>\<open>none\<close> (no box is
  built for such a child), followed at once by a \<^verbatim>\<open>TextBox\<close> for the tail text of the child
  when that is not empty, whether the child was skipped or not.
\<close>

theorem dom_to_box_children:
  "dom_to_box e = Inr b \<Longrightarrow>
     (\<forall>ch\<in>set (el_children e). el_display ch \<noteq> ''none'' \<longrightarrow> (\<exists>cb. dom_to_box ch = Inr cb)) \<and>
     box_children b =
       (if truthy (el_text e) then [TextBox e (the (el_text e))] else []) @
       concat (map (\<lambda>ch.
          (if el_display ch \<noteq> ''none'' then [projr (dom_to_box ch)] else []) @
          (if truthy (el_tail ch) then [TextBox e (the (el_tail ch))] else [])) (el_children e))"
  by (rule dom_to_box_children_eq)

text \<open>The amended claim at \<open>example_element\<close>, whose second child is hidden and has a tail.\<close>

theorem dom_to_box_children_witness:
  "dom_to_box example_element =
     Inr (Box BlockLevelBox example_element
       [TextBox example_element ''Some '',
        Box InlineLevelBox (Element ''inline'' (Some ''emphasised'') (Some '' text.'') [])
          [TextBox (Element ''inline'' (Some ''emphasised'') (Some '' text.'') []) ''emphasised''],
        TextBox example_element '' text.'',
        TextBox example_element ''after hidden'',
        Box BlockLevelBox (Element ''table-cell'' None (Some []) []) []]) \<and>
   box_children (Box BlockLevelBox example_element
       [TextBox example_element ''Some '',
        Box InlineLevelBox (Element ''inline'' (Some ''emphasised'') (Some '' text.'') [])
          [TextBox (Element ''inline'' (Some ''emphasised'') (Some '' text.'') []) ''emphasised''],
        TextBox example_element '' text.'',
        TextBox example_element ''after hidden'',
        Box BlockLevelBox (Element ''table-cell'' None (Some []) []) []]) =
     [TextBox example_element ''Some '',
      projr (dom_to_box (Element ''inline'' (Some ''emphasised'') (Some '' text.'') [])),
      TextBox example_element '' text.'',
      TextBox example_element ''after hidden'',
      projr (dom_to_box (Element ''table-cell'' None (Some []) []))]"
proof -
  have run: "dom_to_box example_element =
     Inr (Box BlockLevelBox example_element
       [TextBox example_element ''Some '',
        Box InlineLevelBox (Element ''inline'' (Some ''emphasised'') (Some '' text.'') [])
          [TextBox (Element ''inline'' (Some ''emphasised'') (Some '' text.'') []) ''emphasised''],
        TextBox example_element '' text.'',
        TextBox example_element ''after hidden'',
        Box BlockLevelBox (Element ''table-cell'' None (Some []) []) []])"
    by (simp add: dom_to_box.simps example_element_def block_display_def inline_display_def Let_def)
  from dom_to_box_children [OF run] run show ?thesis
    by (simp add: example_element_def)
qed

lemma el_child_neq: "ch \<in> set (el_children e) \<Longrightarrow> ch \<noteq> e"
proof
  assume "ch \<in> set (el_children e)" and "ch = e"
  then have "size ch \<le> size_list size (el_children e)"
    by (simp add: size_list_estimation')
  with \<open>ch = e\<close> size_el_children [of e] show False
    by simp
qed

lemma dom_to_box_elements:
  assumes "dom_to_box e = Inr b"
  shows "box_element b = e \<and>
     (\<forall>x\<in>set (box_children b). is_text_box x \<longrightarrow> box_element x = e) \<and>
     (\<forall>x\<in>set (box_children b). \<not> is_text_box x \<longrightarrow>
        (\<exists>ch\<in>set (el_children e). dom_to_box ch = Inr x \<and> box_element x = ch)) \<and>
     (\<forall>ch\<in>set (el_children e). truthy (el_tail ch) \<longrightarrow>
        TextBox e (the (el_tail ch)) \<in> set (box_children b) \<and>
        TextBox ch (the (el_tail ch)) \<notin> set (box_children b))"
proof -
  note ch = dom_to_box_children_eq [OF assms]
  from dom_to_box_root [OF assms] have root: "box_element b = e"
    by auto
  have built: "\<not> is_text_box (projr (dom_to_box ch)) \<and> dom_to_box ch = Inr (projr (dom_to_box ch)) \<and>
      box_element (projr (dom_to_box ch)) = ch"
    if "ch \<in> set (el_children e)" "el_display ch \<noteq> ''none''" for ch
  proof -
    from ch that obtain cb where "dom_to_box ch = Inr cb"
      by blast
    with dom_to_box_root [OF this] show ?thesis
      by auto
  qed
  have texts: "\<forall>x\<in>set (box_children b). is_text_box x \<longrightarrow> box_element x = e"
    using ch built by (auto split: if_splits)
  have boxes: "\<forall>x\<in>set (box_children b). \<not> is_text_box x \<longrightarrow>
        (\<exists>ch\<in>set (el_children e). dom_to_box ch = Inr x \<and> box_element x = ch)"
    using ch built by (auto split: if_splits)
  have tails: "TextBox e (the (el_tail ch)) \<in> set (box_children b) \<and>
        TextBox ch (the (el_tail ch)) \<notin> set (box_children b)"
    if "ch \<in> set (el_children e)" "truthy (el_tail ch)" for ch
  proof
    from ch that show "TextBox e (the (el_tail ch)) \<in> set (box_children b)"
      by auto
    show "TextBox ch (the (el_tail ch)) \<notin> set (box_children b)"
    proof
      assume "TextBox ch (the (el_tail ch)) \<in> set (box_children b)"
      with texts have "ch = e" by fastforce
      with el_child_neq [OF that(1)] show False by simp
    qed
  qed
  from root texts boxes tails show ?thesis
    by blast
qed

text \<open>
  Claim C10. In the box built for an element, every \<^verbatim>\<open>TextBox\<close> child refers to that
  element: the one for the leading text and the ones for the tail texts of the children. So
  the \<^verbatim>\<open>TextBox\<close> for the tail of a child refers to the enclosing element, and no
  \<^verbatim>\<open>TextBox\<close> for that tail refers to the child it follows. The box itself and the boxes
  built for the children refer to the element they were built from.
\<close>

theorem dom_to_box_source_refs:
  "dom_to_box e = Inr b \<Longrightarrow>
     box_element b = e \<and>
     (\<forall>x\<in>set (box_children b). is_text_box x \<longrightarrow> box_element x = e) \<and>
     (\<forall>x\<in>set (box_children b). \<not> is_text_box x \<longrightarrow>
        (\<exists>ch\<in>set (el_children e). dom_to_box ch = Inr x \<and> box_element x = ch)) \<and>
     (\<forall>ch\<in>set (el_children e). truthy (el_tail ch) \<longrightarrow>
        TextBox e (the (el_tail ch)) \<in> set (box_children b) \<and>
        TextBox ch (the (el_tail ch)) \<notin> set (box_children b))"
  by (rule dom_to_box_elements)

text \<open>Claim C10 at \<open>example_element\<close>: the tails of the first two children.\<close>

theorem dom_to_box_source_refs_witness:
  "(\<exists>b. dom_to_box example_element = Inr b \<and> box_element b = example_element \<and>
      TextBox example_element '' text.'' \<in> set (box_children b) \<and>
      TextBox (Element ''inline'' (Some ''emphasised'') (Some '' text.'') []) '' text.''
        \<notin> set (box_children b) \<and>
      TextBox example_element ''after hidden'' \<in> set (box_children b))"
proof -
  have run: "dom_to_box example_element =
     Inr (Box BlockLevelBox example_element
       [TextBox example_element ''Some '',
        Box InlineLevelBox (Element ''inline'' (Some ''emphasised'') (Some '' text.'') [])
          [TextBox (Element ''inline'' (Some ''emphasised'') (Some '' text.'') []) ''emphasised''],
        TextBox example_element '' text.'',
        TextBox example_element ''after hidden'',
        Box BlockLevelBox (Element ''table-cell'' None (Some []) []) []])"
    by (simp add: dom_to_box.simps example_element_def block_display_def inline_display_def
        Let_def)
  from dom_to_box_source_refs [OF run] run show ?thesis
    by (simp add: example_element_def)
qed

section \<open>Properties of \<^verbatim>\<open>inline_in_block\<close>\<close>

text \<open>The equation for a box with children, with the test for one line box folded.\<close>

lemma inline_in_block_Box:
  "inline_in_block (Box c e cs) =
     (case inline_in_block_children cs of
        Inl err \<Rightarrow> Inl err
      | Inr children \<Rightarrow>
          if \<not> is_block_class c \<or> one_line_box children then Inr (Box c e children)
          else
            (case wrap_loop e children [] [] of
               Inl err \<Rightarrow> Inl err
             | Inr (new_children, line) \<Rightarrow>
                 Inr (Box c e
                   (if line = [] then new_children
                    else if new_children = [] then [Box LineBox e line]
                    else new_children @ [Box AnonymousBlockLevelBox e [Box LineBox e line]]))))"
  by (auto simp: one_line_box_def split: sum.splits)

declare inline_in_block.simps(2) [simp del]

lemma block_level_not_line: "is_block_level b \<Longrightarrow> \<not> is_line_box b"
  by (cases b) auto

lemma inline_in_block_children_Inr:
  "inline_in_block_children cs = Inr cs' \<longleftrightarrow> list_all2 (\<lambda>c c'. inline_in_block c = Inr c') cs cs'"
proof (induction cs arbitrary: cs')
  case Nil
  then show ?case by auto
next
  case (Cons c cs)
  show ?case
  proof (cases cs')
    case Nil
    then show ?thesis by (auto split: sum.splits)
  next
    case (Cons c' rest)
    have "list_all2 (\<lambda>c c'. inline_in_block c = Inr c') (c # cs) (c' # rest) \<longleftrightarrow>
        inline_in_block c = Inr c' \<and> inline_in_block_children cs = Inr rest"
      by (simp add: Cons.IH)
    then show ?thesis
      unfolding Cons by (auto split: sum.splits)
  qed
qed

lemma inline_in_block_children_Inl:
  "inline_in_block_children cs = Inl err \<Longrightarrow> \<exists>c\<in>set cs. inline_in_block c = Inl err"
  by (induction cs) (auto split: sum.splits)

text \<open>The class, the element and the text of the root are not changed.\<close>

lemma inline_in_block_root:
  "inline_in_block b = Inr b' \<Longrightarrow>
     is_block_level b' = is_block_level b \<and> is_line_box b' = is_line_box b \<and>
     is_text_box b' = is_text_box b \<and> is_anonymous b' = is_anonymous b \<and>
     box_element b' = box_element b"
  by (cases b) (auto simp: inline_in_block_Box split: sum.splits if_splits prod.splits)

lemma inline_in_block_children_one_line_box:
  assumes "list_all2 (\<lambda>c c'. inline_in_block c = Inr c') cs cs'"
  shows "one_line_box cs' = one_line_box cs"
proof -
  from assms have len: "length cs = length cs'"
    by (rule list_all2_lengthD)
  show ?thesis
  proof (cases "length cs = 1")
    case True
    with list_all2_nthD [OF assms, of 0] have "inline_in_block (cs ! 0) = Inr (cs' ! 0)"
      by simp
    from inline_in_block_root [OF this] len show ?thesis
      by (simp add: one_line_box_def)
  next
    case False
    with len show ?thesis
      by (simp add: one_line_box_def)
  qed
qed

subsection \<open>The wrapping loop\<close>

lemma wrap_loop_Inl:
  "wrap_loop e cs new line = Inl err \<Longrightarrow> list_ex is_line_box cs"
  by (induction cs arbitrary: new line) (auto split: if_splits)

lemma wrap_loop_succeeds:
  "\<not> list_ex is_line_box cs \<Longrightarrow> \<exists>new' line'. wrap_loop e cs new line = Inr (new', line')"
  by (induction cs arbitrary: new line) auto

lemma wrap_loop_line_box:
  "list_ex is_line_box cs \<Longrightarrow> wrap_loop e cs new line = Inl AssertionError"
  by (induction cs arbitrary: new line) auto

lemma wrap_loop_blocks:
  "list_all is_block_level cs \<Longrightarrow> wrap_loop e cs new [] = Inr (new @ cs, [])"
  by (induction cs arbitrary: new) (auto simp: block_level_not_line)

text \<open>
  What the loop keeps, for a property \<open>P\<close> of boxes that holds for every anonymous box around
  a line box of boxes with \<open>P\<close>: the rebuilt children are block-level and have \<open>P\<close>, and the
  boxes waiting in the line are not block-level and have \<open>P\<close>.
\<close>

lemma wrap_loop_keeps:
  assumes "wrap_loop e cs new line = Inr (new', line')"
    and "\<forall>c\<in>set cs \<union> set new \<union> set line. P c"
    and "\<forall>c\<in>set new. is_block_level c"
    and "\<forall>c\<in>set line. \<not> is_block_level c"
    and wrap: "\<And>xs. xs \<noteq> [] \<Longrightarrow> \<forall>c\<in>set xs. P c \<and> \<not> is_block_level c \<Longrightarrow>
           P (Box AnonymousBlockLevelBox e [Box LineBox e xs])"
  shows "(\<forall>c\<in>set new' \<union> set line'. P c) \<and> (\<forall>c\<in>set new'. is_block_level c) \<and>
     (\<forall>c\<in>set line'. \<not> is_block_level c)"
  using assms(1-4)
proof (induction cs arbitrary: new line)
  case Nil
  then show ?case by auto
next
  case (Cons c cs)
  from Cons.prems(1) have nl: "\<not> is_line_box c"
    by (auto split: if_splits)
  show ?case
  proof (cases "is_block_level c")
    case False
    with nl Cons.prems(1) have "wrap_loop e cs new (line @ [c]) = Inr (new', line')"
      by simp
    from Cons.IH [OF this] Cons.prems(2-4) False show ?thesis
      by auto
  next
    case True
    show ?thesis
    proof (cases "line = []")
      case True
      with \<open>is_block_level c\<close> nl Cons.prems(1)
      have "wrap_loop e cs (new @ [c]) line = Inr (new', line')"
        by simp
      from Cons.IH [OF this] Cons.prems(2-4) \<open>is_block_level c\<close> show ?thesis
        by auto
    next
      case False
      let ?anon = "Box AnonymousBlockLevelBox e [Box LineBox e line]"
      from False \<open>is_block_level c\<close> nl Cons.prems(1)
      have run: "wrap_loop e cs (new @ [?anon] @ [c]) [] = Inr (new', line')"
        by simp
      from False Cons.prems(2,4) have "P ?anon"
        by (intro wrap) auto
      with Cons.IH [OF run] Cons.prems(2-4) \<open>is_block_level c\<close> show ?thesis
        by auto
    qed
  qed
qed

subsection \<open>A property of every box of the result\<close>

lemma list_all_concat_boxes [simp]:
  "list_all P (concat (map boxes_of xs)) \<longleftrightarrow> (\<forall>x\<in>set xs. list_all P (boxes_of x))"
  by (auto simp: list_all_iff)

lemma list_all_boxes_of_Box:
  "list_all P (boxes_of (Box c e cs)) \<longleftrightarrow> P (Box c e cs) \<and> (\<forall>x\<in>set cs. list_all P (boxes_of x))"
  by (auto simp: list_all_iff)

text \<open>
  A property \<open>P\<close> of single boxes holds for every box of the result when it holds for text
  boxes, for boxes that are not block-level, for an anonymous box around a line box, and for
  what the function makes of a block-level box of the input: a box of the same class and
  element whose children are one line box or are all block-level. \<open>Q\<close> is what is known of
  the boxes of the input.
\<close>

lemma inline_in_block_all:
  assumes run: "inline_in_block t = Inr t'"
    and pre: "list_all Q (boxes_of t)"
    and ptext: "\<And>e s. P (TextBox e s)"
    and other: "\<And>c e cs. \<not> is_block_class c \<Longrightarrow> P (Box c e cs)"
    and fresh: "\<And>e l. is_line_box l \<Longrightarrow> P (Box AnonymousBlockLevelBox e [l])"
    and root: "\<And>c e cs cs'. Q (Box c e cs) \<Longrightarrow> is_block_class c \<Longrightarrow>
           inline_in_block (Box c e cs) = Inr (Box c e cs') \<Longrightarrow>
           one_line_box cs' \<or> list_all is_block_level cs' \<Longrightarrow> P (Box c e cs')"
  shows "list_all P (boxes_of t')"
  using run pre
proof (induction t arbitrary: t')
  case (TextBox e s)
  then show ?case by (auto simp: ptext)
next
  case (Box c e cs)
  from Box.prems(1) obtain cs' where cs': "inline_in_block_children cs = Inr cs'"
    by (auto simp: inline_in_block_Box split: sum.splits)
  then have l2: "list_all2 (\<lambda>c c'. inline_in_block c = Inr c') cs cs'"
    by (simp add: inline_in_block_children_Inr)
  have kids: "list_all P (boxes_of x)" if "x \<in> set cs'" for x
  proof -
    from that obtain i where i: "i < length cs'" "x = cs' ! i"
      by (auto simp: in_set_conv_nth)
    with l2 have y: "cs ! i \<in> set cs" "inline_in_block (cs ! i) = Inr x"
      by (auto simp: list_all2_conv_all_nth)
    from Box.prems(2) y(1) have "list_all Q (boxes_of (cs ! i))"
      by (auto simp: list_all_iff)
    from Box.IH [OF y(1) y(2) this] show ?thesis .
  qed
  from Box.prems(2) have Qroot: "Q (Box c e cs)"
    by simp
  have Lbox: "list_all P (boxes_of (Box LineBox e xs))" if "\<forall>x\<in>set xs. list_all P (boxes_of x)" for xs
    using that by (simp add: list_all_boxes_of_Box other)
  have Abox: "list_all P (boxes_of (Box AnonymousBlockLevelBox e [Box LineBox e xs]))"
    if "\<forall>x\<in>set xs. list_all P (boxes_of x)" for xs
    unfolding list_all_boxes_of_Box [of P AnonymousBlockLevelBox]
    using Lbox [OF that] fresh [of "Box LineBox e xs" e]
    by simp
  show ?case
  proof (cases "is_block_class c")
    case False
    with Box.prems(1) cs' have "t' = Box c e cs'"
      by (simp add: inline_in_block_Box)
    with False kids show ?thesis
      by (simp add: list_all_boxes_of_Box other)
  next
    case True
    have result: "list_all P (boxes_of t')"
      if "t' = Box c e xs" "one_line_box xs \<or> list_all is_block_level xs"
        "\<forall>x\<in>set xs. list_all P (boxes_of x)" for xs
    proof -
      from Box.prems(1) that(1) have "inline_in_block (Box c e cs) = Inr (Box c e xs)"
        by simp
      from root [OF Qroot True this that(2)] that(1,3) show ?thesis
        by (simp add: list_all_boxes_of_Box del: boxes_of.simps)
    qed
    show ?thesis
    proof (cases "one_line_box cs'")
      case one: True
      with True Box.prems(1) cs' have "t' = Box c e cs'"
        by (simp add: inline_in_block_Box)
      with one kids show ?thesis
        by (intro result) auto
    next
      case one: False
      with True Box.prems(1) cs' obtain new line where
        wl: "wrap_loop e cs' [] [] = Inr (new, line)"
        by (auto simp: inline_in_block_Box split: sum.splits)
      have "(\<forall>c\<in>set new \<union> set line. list_all P (boxes_of c)) \<and> (\<forall>c\<in>set new. is_block_level c) \<and>
          (\<forall>c\<in>set line. \<not> is_block_level c)"
        by (rule wrap_loop_keeps [OF wl, where P = "\<lambda>c. list_all P (boxes_of c)"])
          (use kids Abox in auto)
      then have new: "\<forall>c\<in>set new. list_all P (boxes_of c)" "\<forall>c\<in>set line. list_all P (boxes_of c)"
        "list_all is_block_level new"
        by (auto simp: list_all_iff)
      let ?anon = "Box AnonymousBlockLevelBox e [Box LineBox e line]"
      from \<open>is_block_class c\<close> one Box.prems(1) cs' wl
      have t': "t' = Box c e (if line = [] then new
                  else if new = [] then [Box LineBox e line] else new @ [?anon])"
        by (simp add: inline_in_block_Box)
      show ?thesis
      proof (rule result [OF t'])
        show "one_line_box (if line = [] then new
                  else if new = [] then [Box LineBox e line] else new @ [?anon]) \<or>
            list_all is_block_level (if line = [] then new
                  else if new = [] then [Box LineBox e line] else new @ [?anon])"
          using new(3) by (simp add: one_line_box_def)
        show "\<forall>x\<in>set (if line = [] then new
                  else if new = [] then [Box LineBox e line] else new @ [?anon]).
            list_all P (boxes_of x)"
          using new(1) Lbox [OF new(2)] Abox [OF new(2)] by (simp del: boxes_of.simps)
      qed
    qed
  qed
qed

subsection \<open>The result is settled\<close>

lemma inline_in_block_settled:
  assumes "inline_in_block t = Inr t'"
  shows "settled t'"
  unfolding settled_def
  by (rule inline_in_block_all [OF assms, where Q = "\<lambda>b. True"])
    (auto simp: settled_box_def list_all_iff one_line_box_def)

subsection \<open>A settled tree is not changed\<close>

lemma inline_in_block_children_same:
  "(\<forall>c\<in>set cs. inline_in_block c = Inr c) \<Longrightarrow> inline_in_block_children cs = Inr cs"
  by (induction cs) auto

lemma settled_Box:
  "settled (Box c e cs) \<longleftrightarrow> settled_box (Box c e cs) \<and> (\<forall>x\<in>set cs. settled x)"
  by (simp add: settled_def list_all_boxes_of_Box del: boxes_of.simps)

lemma settled_unchanged:
  "settled t \<Longrightarrow> inline_in_block t = Inr t"
proof (induction t)
  case (TextBox e s)
  then show ?case by simp
next
  case (Box c e cs)
  from Box.prems have kids: "\<forall>x\<in>set cs. settled x" and root: "settled_box (Box c e cs)"
    by (simp_all add: settled_Box)
  with Box.IH have cs: "inline_in_block_children cs = Inr cs"
    by (intro inline_in_block_children_same) auto
  show ?case
  proof (cases "\<not> is_block_class c \<or> one_line_box cs")
    case True
    with cs show ?thesis
      by (simp add: inline_in_block_Box)
  next
    case False
    with root have "list_all is_block_level cs"
      by (simp add: settled_box_def)
    from wrap_loop_blocks [OF this, of e "[]"] False cs show ?thesis
      by (simp add: inline_in_block_Box)
  qed
qed

lemma inline_in_block_twice:
  "inline_in_block t = Inr t' \<Longrightarrow> inline_in_block t' = Inr t'"
  by (rule settled_unchanged) (rule inline_in_block_settled)

subsection \<open>When the pass succeeds\<close>

lemma no_nested_line_box_Box:
  "no_nested_line_box (Box c e cs) \<longleftrightarrow>
     (is_block_class c \<longrightarrow> list_ex is_line_box cs \<longrightarrow> length cs = 1) \<and>
     (\<forall>x\<in>set cs. no_nested_line_box x)"
  by (simp add: no_nested_line_box_def)

lemma inline_in_block_children_line_box:
  assumes "list_all2 (\<lambda>c c'. inline_in_block c = Inr c') cs cs'"
  shows "list_ex is_line_box cs' = list_ex is_line_box cs"
proof -
  from assms have "list_all2 (\<lambda>c c'. is_line_box c' = is_line_box c) cs cs'"
    by (rule list_all2_mono) (simp add: inline_in_block_root)
  then show ?thesis
    by (induction rule: list_all2_induct) auto
qed

lemma inline_in_block_succeeds:
  "no_nested_line_box t \<Longrightarrow> \<exists>t'. inline_in_block t = Inr t'"
proof (induction t)
  case (TextBox e s)
  then show ?case by simp
next
  case (Box c e cs)
  from Box.prems have kids: "\<forall>x\<in>set cs. no_nested_line_box x"
    and root: "is_block_class c \<longrightarrow> list_ex is_line_box cs \<longrightarrow> length cs = 1"
    by (simp_all add: no_nested_line_box_Box)
  have "\<exists>cs'. inline_in_block_children cs = Inr cs'"
  proof (cases "inline_in_block_children cs")
    case (Inl err)
    from inline_in_block_children_Inl [OF this] Box.IH kids show ?thesis
      by fastforce
  next
    case (Inr cs')
    then show ?thesis by blast
  qed
  then obtain cs' where cs': "inline_in_block_children cs = Inr cs'" ..
  then have l2: "list_all2 (\<lambda>c c'. inline_in_block c = Inr c') cs cs'"
    by (simp add: inline_in_block_children_Inr)
  show ?case
  proof (cases "\<not> is_block_class c \<or> one_line_box cs'")
    case True
    with cs' show ?thesis
      by (simp add: inline_in_block_Box)
  next
    case False
    have "\<not> list_ex is_line_box cs'"
    proof
      assume ex: "list_ex is_line_box cs'"
      with inline_in_block_children_line_box [OF l2] root False have "length cs' = 1"
        using list_all2_lengthD [OF l2] by simp
      with ex have "one_line_box cs'"
        by (cases cs') (auto simp: one_line_box_def)
      with False show False by simp
    qed
    from wrap_loop_succeeds [OF this, of e "[]" "[]"] False cs' show ?thesis
      by (auto simp: inline_in_block_Box)
  qed
qed

lemma inline_in_block_children_fails:
  "x \<in> set cs \<Longrightarrow> inline_in_block x = Inl err \<Longrightarrow> \<exists>err'. inline_in_block_children cs = Inl err'"
  by (induction cs) (auto split: sum.splits)

lemma inline_in_block_error:
  "inline_in_block t = Inl err \<Longrightarrow> err = AssertionError"
proof (induction t)
  case (TextBox e s)
  then show ?case by simp
next
  case (Box c e cs)
  show ?case
  proof (cases "inline_in_block_children cs")
    case (Inl err')
    with Box.prems have "err' = err"
      by (simp add: inline_in_block_Box)
    with inline_in_block_children_Inl [OF Inl] Box.IH show ?thesis
      by auto
  next
    case (Inr cs')
    with Box.prems obtain err' where "wrap_loop e cs' [] [] = Inl err'" and "err' = err"
      by (auto simp: inline_in_block_Box split: if_splits sum.splits)
    with wrap_loop_line_box [OF wrap_loop_Inl, of e cs' "[]" "[]" err' e "[]" "[]"] show ?thesis
      by simp
  qed
qed

lemma inline_in_block_fails:
  "\<not> no_nested_line_box t \<Longrightarrow> inline_in_block t = Inl AssertionError"
proof (induction t)
  case (TextBox e s)
  then show ?case by (simp add: no_nested_line_box_def)
next
  case (Box c e cs)
  have "\<exists>err. inline_in_block (Box c e cs) = Inl err"
  proof (cases "\<forall>x\<in>set cs. no_nested_line_box x")
    case False
    then obtain x where x: "x \<in> set cs" "\<not> no_nested_line_box x"
      by blast
    with Box.IH have "inline_in_block x = Inl AssertionError"
      by blast
    from inline_in_block_children_fails [OF x(1) this] show ?thesis
      by (auto simp: inline_in_block_Box)
  next
    case True
    with Box.prems have root: "is_block_class c" "list_ex is_line_box cs" "length cs \<noteq> 1"
      by (simp_all add: no_nested_line_box_Box)
    show ?thesis
    proof (cases "inline_in_block_children cs")
      case (Inl err)
      then show ?thesis
        by (simp add: inline_in_block_Box)
    next
      case (Inr cs')
      then have l2: "list_all2 (\<lambda>c c'. inline_in_block c = Inr c') cs cs'"
        by (simp add: inline_in_block_children_Inr)
      from root(3) list_all2_lengthD [OF l2] have "\<not> one_line_box cs'"
        by (simp add: one_line_box_def)
      moreover from root(2) inline_in_block_children_line_box [OF l2]
      have "wrap_loop e cs' [] [] = Inl AssertionError"
        by (intro wrap_loop_line_box) simp
      ultimately show ?thesis
        using Inr root(1) by (simp add: inline_in_block_Box)
    qed
  qed
  then obtain err where err: "inline_in_block (Box c e cs) = Inl err" ..
  from inline_in_block_error [OF err] err show ?case
    by simp
qed

subsection \<open>Anonymous boxes\<close>

text \<open>
  An anonymous box of the result has one child, a line box, unless it is what the function
  has made of an anonymous box of the input.
\<close>

lemma inline_in_block_anonymous:
  assumes "inline_in_block t = Inr t'"
  shows "list_all (\<lambda>b. is_anonymous b \<longrightarrow> one_line_box (box_children b) \<or>
            (\<exists>b0\<in>set (boxes_of t). is_anonymous b0 \<and> inline_in_block b0 = Inr b)) (boxes_of t')"
  by (rule inline_in_block_all [OF assms, where Q = "\<lambda>b. b \<in> set (boxes_of t)"])
    (auto simp: list_all_iff one_line_box_def simp del: boxes_of.simps)

subsection \<open>Texts\<close>

lemma wrap_loop_texts:
  "wrap_loop e cs new line = Inr (new', line') \<Longrightarrow>
     concat (map texts_of new') @ concat (map texts_of line') =
     concat (map texts_of new) @ concat (map texts_of line) @ concat (map texts_of cs)"
  by (induction cs arbitrary: new line) (auto split: if_splits)

lemma inline_in_block_texts:
  "inline_in_block t = Inr t' \<Longrightarrow> texts_of t' = texts_of t"
proof (induction t arbitrary: t')
  case (TextBox e s)
  then show ?case by auto
next
  case (Box c e cs)
  from Box.prems obtain cs' where cs': "inline_in_block_children cs = Inr cs'"
    by (auto simp: inline_in_block_Box split: sum.splits)
  then have l2: "list_all2 (\<lambda>c c'. inline_in_block c = Inr c') cs cs'"
    by (simp add: inline_in_block_children_Inr)
  have "list_all2 (\<lambda>c c'. texts_of c' = texts_of c) cs cs'"
    using l2 Box.IH by (auto simp: list_all2_conv_all_nth)
  then have kids: "concat (map texts_of cs') = concat (map texts_of cs)"
    by (induction rule: list_all2_induct) auto
  show ?case
  proof (cases "\<not> is_block_class c \<or> one_line_box cs'")
    case True
    with cs' Box.prems kids show ?thesis
      by (auto simp: inline_in_block_Box)
  next
    case False
    with cs' Box.prems obtain new line where wl: "wrap_loop e cs' [] [] = Inr (new, line)"
      by (auto simp: inline_in_block_Box split: sum.splits)
    from wrap_loop_texts [OF wl] kids False cs' Box.prems wl show ?thesis
      by (auto simp: inline_in_block_Box split: if_splits)
  qed
qed

subsection \<open>The claims about \<^verbatim>\<open>inline_in_block\<close>\<close>

lemma mixed_example_run: "inline_in_block mixed_example = Inr mixed_example_result"
  by (simp add: mixed_example_def mixed_example_result_def inline_in_block.simps(2))

text \<open>
  Claim C3. In the tree that \<^verbatim>\<open>inline_in_block\<close> leaves when it returns, the children of every
  block-level box (\<^verbatim>\<open>BlockLevelBox\<close> or \<^verbatim>\<open>AnonymousBlockLevelBox\<close>) are exactly one \<^verbatim>\<open>LineBox\<close>,
  or a possibly empty sequence of block-level boxes. The function returns on every tree in
  which no block-level box has a \<^verbatim>\<open>LineBox\<close> beside another child; on the other trees its
  assertion fails.
\<close>

theorem inline_in_block_invariant:
  "(\<forall>t'. inline_in_block t = Inr t' \<longrightarrow>
      (\<forall>b\<in>set (boxes_of t'). is_block_level b \<longrightarrow>
         (length (box_children b) = 1 \<and> is_line_box (box_children b ! 0)) \<or>
         (\<forall>c\<in>set (box_children b). is_block_level c))) \<and>
   (no_nested_line_box t \<longrightarrow> (\<exists>t'. inline_in_block t = Inr t')) \<and>
   (\<not> no_nested_line_box t \<longrightarrow> inline_in_block t = Inl AssertionError)"
proof (intro conjI allI impI)
  fix t'
  assume "inline_in_block t = Inr t'"
  from inline_in_block_settled [OF this]
  show "\<forall>b\<in>set (boxes_of t'). is_block_level b \<longrightarrow>
         (length (box_children b) = 1 \<and> is_line_box (box_children b ! 0)) \<or>
         (\<forall>c\<in>set (box_children b). is_block_level c)"
    by (auto simp: settled_def settled_box_def one_line_box_def list_all_iff)
next
  assume "no_nested_line_box t"
  then show "\<exists>t'. inline_in_block t = Inr t'"
    by (rule inline_in_block_succeeds)
next
  assume "\<not> no_nested_line_box t"
  then show "inline_in_block t = Inl AssertionError"
    by (rule inline_in_block_fails)
qed

text \<open>Claim C3 at the example of the documentation, and at a tree on which the assertion fails.\<close>

theorem inline_in_block_invariant_witness:
  "inline_in_block mixed_example = Inr mixed_example_result \<and>
   settled mixed_example_result \<and>
   inline_in_block (Box BlockLevelBox (Element ''block'' None None [])
      [Box LineBox (Element ''block'' None None []) [],
       TextBox (Element ''block'' None None []) ''x'']) = Inl AssertionError"
  using inline_in_block_invariant [of mixed_example]
    inline_in_block_invariant [of "Box BlockLevelBox (Element ''block'' None None [])
      [Box LineBox (Element ''block'' None None []) [],
       TextBox (Element ''block'' None None []) ''x'']"]
    mixed_example_run
  by (simp add: settled_def settled_box_def one_line_box_def mixed_example_result_def
      no_nested_line_box_def)

text \<open>
  Claim C4. Whenever \<^verbatim>\<open>inline_in_block\<close> returns a tree, applying it to that tree returns the
  same tree. It returns on every tree with no nested \<^verbatim>\<open>LineBox\<close>, that is, in which no
  block-level box has a \<^verbatim>\<open>LineBox\<close> beside another child. In particular a block-level box
  whose children are exactly one \<^verbatim>\<open>LineBox\<close> is not rewrapped: the function only descends
  into the line box.
\<close>

theorem inline_in_block_idempotent:
  "(\<forall>T'. inline_in_block T = Inr T' \<longrightarrow> inline_in_block T' = Inr T') \<and>
   (no_nested_line_box T \<longrightarrow> (\<exists>T'. inline_in_block T = Inr T' \<and> inline_in_block T' = Inr T')) \<and>
   (is_block_class c \<and> is_line_box l \<longrightarrow>
      inline_in_block (Box c e [l]) =
        (case inline_in_block l of Inl err \<Rightarrow> Inl err | Inr l' \<Rightarrow> Inr (Box c e [l'])))"
proof (intro conjI allI impI)
  fix T'
  assume "inline_in_block T = Inr T'"
  then show "inline_in_block T' = Inr T'"
    by (rule inline_in_block_twice)
next
  assume "no_nested_line_box T"
  from inline_in_block_succeeds [OF this] obtain T' where "inline_in_block T = Inr T'" ..
  with inline_in_block_twice [OF this]
  show "\<exists>T'. inline_in_block T = Inr T' \<and> inline_in_block T' = Inr T'"
    by blast
next
  assume cl: "is_block_class c \<and> is_line_box l"
  show "inline_in_block (Box c e [l]) =
        (case inline_in_block l of Inl err \<Rightarrow> Inl err | Inr l' \<Rightarrow> Inr (Box c e [l']))"
  proof (cases "inline_in_block l")
    case (Inl err)
    then show ?thesis
      by (simp add: inline_in_block_Box)
  next
    case (Inr l')
    with inline_in_block_root [OF Inr] cl show ?thesis
      by (simp add: inline_in_block_Box one_line_box_def)
  qed
qed

text \<open>Claim C4 at the example of the documentation and at the box of its result.\<close>

theorem inline_in_block_idempotent_witness:
  "no_nested_line_box mixed_example \<and>
   inline_in_block mixed_example = Inr mixed_example_result \<and>
   inline_in_block mixed_example_result = Inr mixed_example_result \<and>
   inline_in_block (Box BlockLevelBox (Element ''table'' None None [])
          [Box LineBox (Element ''table'' None None [])
             [TextBox (Element ''table'' None None []) ''More text'']]) =
     Inr (Box BlockLevelBox (Element ''table'' None None [])
          [Box LineBox (Element ''table'' None None [])
             [TextBox (Element ''table'' None None []) ''More text'']])"
proof -
  have nn: "no_nested_line_box mixed_example"
    by (simp add: no_nested_line_box_def mixed_example_def)
  from inline_in_block_idempotent [of mixed_example BlockLevelBox
      "Box LineBox (Element ''table'' None None [])
             [TextBox (Element ''table'' None None []) ''More text'']"
      "Element ''table'' None None []"] nn mixed_example_run
  show ?thesis
    by (simp add: inline_in_block.simps(2))
qed

text \<open>
  Claim C9. In the tree that \<^verbatim>\<open>inline_in_block\<close> leaves when it returns, an
  \<^verbatim>\<open>AnonymousBlockLevelBox\<close> has exactly one child, a \<^verbatim>\<open>LineBox\<close>, unless it is what the pass
  has made of an anonymous box that was in the tree before: every anonymous box the pass has
  created has exactly one child, a \<^verbatim>\<open>LineBox\<close>. So when the tree had no anonymous box before,
  all anonymous boxes after are of this shape.
\<close>

theorem inline_in_block_created_anonymous:
  "inline_in_block t = Inr t' \<Longrightarrow>
     (\<forall>b\<in>set (boxes_of t'). is_anonymous b \<longrightarrow>
        (length (box_children b) = 1 \<and> is_line_box (box_children b ! 0)) \<or>
        (\<exists>b0\<in>set (boxes_of t). is_anonymous b0 \<and> inline_in_block b0 = Inr b)) \<and>
     ((\<forall>b0\<in>set (boxes_of t). \<not> is_anonymous b0) \<longrightarrow>
        (\<forall>b\<in>set (boxes_of t'). is_anonymous b \<longrightarrow>
           length (box_children b) = 1 \<and> is_line_box (box_children b ! 0)))"
  using inline_in_block_anonymous [of t t']
  by (simp add: list_all_iff one_line_box_def) blast

text \<open>
  Claim C9 at the example of the documentation: no anonymous box before, one after, and
  every anonymous box after has one child, a line box.
\<close>

theorem inline_in_block_created_anonymous_witness:
  "inline_in_block mixed_example = Inr mixed_example_result \<and>
   \<not> list_ex is_anonymous (boxes_of mixed_example) \<and>
   list_ex is_anonymous (boxes_of mixed_example_result) \<and>
   list_all (\<lambda>b. is_anonymous b \<longrightarrow> one_line_box (box_children b)) (boxes_of mixed_example_result)"
proof -
  have none: "\<forall>b0\<in>set (boxes_of mixed_example). \<not> is_anonymous b0"
    by (simp add: mixed_example_def)
  from inline_in_block_created_anonymous [OF mixed_example_run] none
  have "\<forall>b\<in>set (boxes_of mixed_example_result). is_anonymous b \<longrightarrow>
           length (box_children b) = 1 \<and> is_line_box (box_children b ! 0)"
    by blast
  then have "list_all (\<lambda>b. is_anonymous b \<longrightarrow> one_line_box (box_children b))
      (boxes_of mixed_example_result)"
    by (simp add: list_all_iff one_line_box_def)
  moreover have "list_ex is_anonymous (boxes_of mixed_example_result)"
    by (simp add: mixed_example_result_def)
  ultimately show ?thesis
    using none mixed_example_run by (simp add: list_ex_iff)
qed

text \<open>
  \<^verbatim>\<open>inline_in_block\<close> keeps the texts of the \<^verbatim>\<open>TextBox\<close> leaves, in their order (the part of
  claim C2 that holds).
\<close>

theorem inline_in_block_keeps_texts:
  "inline_in_block t = Inr t' \<Longrightarrow> texts_of t' = texts_of t"
  by (rule inline_in_block_texts)

text \<open>The texts of the example of the documentation, before and after.\<close>

theorem inline_in_block_keeps_texts_witness:
  "inline_in_block mixed_example = Inr mixed_example_result \<and>
   texts_of mixed_example_result = [''Some '', ''text'', ''More text'']"
  using inline_in_block_keeps_texts [OF mixed_example_run] mixed_example_run
  by (simp add: mixed_example_def)

section \<open>Properties of \<^verbatim>\<open>block_in_inline\<close>\<close>

lemma nested_example_run: "run_block_in_inline 30 nested_example = Ok nested_example_result"
  by (simp add: run_block_in_inline_def nested_example_def nested_example_result_def heap_defs
      eval_nat_numeral)

lemma trailing_example_run:
  "map_result texts_of (run_block_in_inline 20 trailing_example) =
     Ok [''one'', ''four'', ''two'', ''three'']"
  by (simp add: run_block_in_inline_def trailing_example_def heap_defs eval_nat_numeral)

text \<open>
  Claim C2 says that \<^verbatim>\<open>inline_in_block\<close> and \<^verbatim>\<open>block_in_inline\<close> keep the sequence of the
  texts of the \<^verbatim>\<open>TextBox\<close> leaves. \<^verbatim>\<open>block_in_inline\<close> does not: on the example of its own
  documentation the text of the inner inline-level box is lost (the documentation keeps it),
  and where a text follows the split inline-level box in its line, it ends up before the
  texts of the block-level box.
\<close>

theorem block_in_inline_loses_text:
  "run_block_in_inline 30 nested_example = Ok nested_example_result \<and>
   texts_of nested_example =
     [''Hello.'', ''Some '', ''text'', ''More text'', ''More text again'', ''And again.''] \<and>
   texts_of nested_example_result =
     [''Hello.'', ''Some '', ''More text'', ''More text again'', ''And again.''] \<and>
   texts_of trailing_example = [''one'', ''two'', ''three'', ''four''] \<and>
   map_result texts_of (run_block_in_inline 20 trailing_example) =
     Ok [''one'', ''four'', ''two'', ''three'']"
  using nested_example_run trailing_example_run
  by (simp add: nested_example_def nested_example_result_def trailing_example_def)

lemma collect_inline_parents_Some:
  "collect_inline_parents n h cur acc = Ok (ips, Some plb) \<Longrightarrow>
     \<exists>ips'. ips = acc @ ips' \<and> prefix (ips' @ [plb]) (parents n h cur) \<and>
       (\<forall>a\<in>set ips'. obj_is_inline (box_at h a)) \<and> \<not> obj_is_inline (box_at h plb)"
proof (induction n arbitrary: cur acc)
  case 0
  then show ?case by simp
next
  case (Suc n)
  from Suc.prems obtain parent where parent: "obj_parent (box_at h cur) = Some parent"
    by (auto split: option.splits)
  show ?case
  proof (cases "obj_is_inline (box_at h parent)")
    case True
    with Suc.prems parent
    have "collect_inline_parents n h parent (acc @ [parent]) = Ok (ips, Some plb)"
      by simp
    from Suc.IH [OF this] obtain ips' where
      "ips = (acc @ [parent]) @ ips'" "prefix (ips' @ [plb]) (parents n h parent)"
      "\<forall>a\<in>set ips'. obj_is_inline (box_at h a)" "\<not> obj_is_inline (box_at h plb)"
      by blast
    with True parent show ?thesis
      by (intro exI [of _ "parent # ips'"]) simp
  next
    case False
    with Suc.prems parent show ?thesis
      by (intro exI [of _ "[]"]) simp
  qed
qed

lemma collect_inline_parents_None:
  "collect_inline_parents n h cur acc = Ok (ips, None) \<Longrightarrow>
     ips = acc @ parents n h cur \<and> (\<forall>a\<in>set (parents n h cur). obj_is_inline (box_at h a))"
proof (induction n arbitrary: cur acc)
  case 0
  then show ?case by simp
next
  case (Suc n)
  show ?case
  proof (cases "obj_parent (box_at h cur)")
    case None
    with Suc.prems show ?thesis by simp
  next
    case (Some parent)
    with Suc.prems have inl: "obj_is_inline (box_at h parent)"
      and "collect_inline_parents n h parent (acc @ [parent]) = Ok (ips, None)"
      by (auto split: if_splits)
    from Suc.IH [OF this(2)] inl Some show ?thesis
      by simp
  qed
qed

lemma split_inline_parents_no_line_box:
  "collect_inline_parents n h box [] = Ok (ips, None) \<Longrightarrow>
     split_inline_parents n box h = Raise AttributeError"
  by (simp add: split_inline_parents_def insert_previous_anonymous_box_def)

lemma split_inline_parents_no_parent:
  "collect_inline_parents n h box [] = Ok (ips, Some plb) \<Longrightarrow> plb < box_count h \<Longrightarrow>
     obj_parent (box_at h plb) = None \<Longrightarrow>
     split_inline_parents n box h = Raise AttributeError"
  by (simp add: split_inline_parents_def insert_previous_anonymous_box_def new_box_def
      new_list_def)

lemma collect_inline_parents_enough:
  "inline_ancestors h box ips r \<Longrightarrow> length ips < n \<Longrightarrow>
     collect_inline_parents n h box acc = Ok (acc @ ips, r)"
proof (induction ips arbitrary: box acc n)
  case Nil
  then obtain n' where "n = Suc n'"
    by (cases n) auto
  with Nil show ?case
    by (cases r) auto
next
  case (Cons parent ips)
  from Cons.prems obtain n' where n: "n = Suc n'" "length ips < n'"
    by (cases n) auto
  from Cons.prems(1) have p: "obj_parent (box_at h box) = Some parent"
    "obj_is_inline (box_at h parent)" "inline_ancestors h parent ips r"
    by auto
  from Cons.IH [OF p(3) n(2), of "acc @ [parent]"] p n show ?case
    by simp
qed

lemma collect_inline_parents_Ok:
  "collect_inline_parents n h box acc = Ok (ips', r) \<Longrightarrow>
     \<exists>ips. ips' = acc @ ips \<and> inline_ancestors h box ips r \<and> length ips < n"
proof (induction n arbitrary: box acc)
  case 0
  then show ?case by simp
next
  case (Suc n)
  show ?case
  proof (cases "obj_parent (box_at h box)")
    case None
    with Suc.prems show ?thesis
      by auto
  next
    case (Some parent)
    show ?thesis
    proof (cases "obj_is_inline (box_at h parent)")
      case True
      with Suc.prems Some
      have "collect_inline_parents n h parent (acc @ [parent]) = Ok (ips', r)"
        by simp
      from Suc.IH [OF this] obtain ips where
        "ips' = (acc @ [parent]) @ ips" "inline_ancestors h parent ips r" "length ips < n"
        by blast
      with Some True have "ips' = acc @ (parent # ips) \<and>
          inline_ancestors h box (parent # ips) r \<and> length (parent # ips) < Suc n"
        by simp
      then show ?thesis
        by blast
    next
      case False
      with Suc.prems Some have "ips' = acc @ []" "r = Some parent"
        by auto
      with Some False have "ips' = acc @ [] \<and> inline_ancestors h box [] r \<and> length ([] :: ref list) < Suc n"
        by simp
      then show ?thesis
        by blast
    qed
  qed
qed

lemma collect_inline_parents_no_error: "collect_inline_parents n h box acc \<noteq> Raise e"
  by (induction n arbitrary: box acc) (auto split: option.splits)

lemma collect_inline_parents_cases:
  "collect_inline_parents n h box [] = Diverge \<or>
   (\<exists>ips r. collect_inline_parents n h box [] = Ok (ips, r) \<and> inline_ancestors h box ips r \<and>
      length ips < n)"
proof (cases "collect_inline_parents n h box []")
  case (Ok x)
  obtain ips r where "x = (ips, r)"
    by (cases x)
  with Ok collect_inline_parents_Ok [of n h box "[]" ips r] show ?thesis
    by auto
next
  case (Raise e)
  with collect_inline_parents_no_error show ?thesis
    by blast
next
  case Diverge
  then show ?thesis by simp
qed

lemma list_index_first:
  "x \<notin> set xs \<Longrightarrow> list_index (xs @ x # ys) x = Ok (length xs)"
  by (induction xs) auto

lemma remove1_after: "x \<notin> set xs \<Longrightarrow> remove1 x (xs @ ys) = xs @ remove1 x ys"
  by (induction xs) auto

lemma obj_element_set_parent [simp]: "obj_element (set_parent q x) = obj_element x"
  by (cases x) auto

lemma obj_children_set_parent [simp]: "obj_children (set_parent q x) = obj_children x"
  by (cases x) auto

lemma obj_parent_set_parent [simp]: "obj_parent (set_parent q x) = q"
  by (cases x) auto

lemma insert_anonymous_boxes:
  assumes valid: "plb < box_count h" "g < box_count h" "l < list_count h"
    and parent: "obj_parent (box_at h plb) = Some g"
    and children: "obj_children (box_at h g) = Some l"
    and l: "list_at h l = pre @ plb # post"
    and first: "plb \<notin> set pre"
    and pre: "\<forall>b\<in>set pre. b < box_count h"
  shows "then_do (insert_previous_anonymous_box (Some plb) h)
           (\<lambda>(previous_anonymous_box, h1). insert_next_anonymous_box plb previous_anonymous_box h1) =
         Ok (Suc (box_count h),
             h\<lparr>box_at := (box_at h)
                   (box_count h := BoxObj AnonymousBlockLevelBox (obj_element (box_at h plb))
                                     (Some g) (list_count h),
                    Suc (box_count h) :=
                      BoxObj AnonymousBlockLevelBox (obj_element (box_at h plb))
                        (Some g) (Suc (list_count h)),
                    plb := set_parent (Some (box_count h)) (box_at h plb)),
               list_at := (list_at h)
                   (list_count h := [plb], Suc (list_count h) := [],
                    l := pre @ box_count h # Suc (box_count h) # post),
               box_count := Suc (Suc (box_count h)),
               list_count := Suc (Suc (list_count h))\<rparr>)"
proof -
  let ?n = "box_count h" and ?m = "list_count h"
  from valid pre have ne: "plb \<noteq> ?n" "g \<noteq> ?n" "l \<noteq> ?m" "plb \<noteq> Suc ?n" "g \<noteq> Suc ?n" "l \<noteq> Suc ?m"
    "?n \<notin> set pre" "Suc ?n \<notin> set pre"
    by auto
  have idx: "list_index (pre @ plb # post) plb = Ok (length pre)"
    using first by (rule list_index_first)
  have idx2: "list_index (pre @ ?n # post) ?n = Ok (length pre)"
    using ne(7) by (rule list_index_first)
  have rm: "remove1 plb (pre @ ?n # plb # post) = pre @ ?n # post"
    using first ne(1) by (simp add: remove1_after)
  show ?thesis
  proof (cases "g = plb")
    case True
    with parent children have "obj_parent (box_at h plb) = Some plb"
      "obj_children (box_at h plb) = Some l"
      by simp_all
    with True l ne idx idx2 rm show ?thesis
      by (simp add: insert_previous_anonymous_box_def insert_next_anonymous_box_def new_box_def
          new_list_def box_index_def index_plus_1_def heap_add_child_def fun_upd_twist)
  next
    case False
    with parent children l ne idx idx2 rm show ?thesis
      by (simp add: insert_previous_anonymous_box_def insert_next_anonymous_box_def new_box_def
          new_list_def box_index_def index_plus_1_def heap_add_child_def fun_upd_twist)
  qed
qed

text \<open>
  Claim C7 says that the pass fails when the first ancestor that is not inline-level is not a
  \<^verbatim>\<open>LineBox\<close>. The class of that ancestor is never tested: here it is a \<^verbatim>\<open>BlockLevelBox\<close>, and
  the pass wraps it like a line box and returns.
\<close>

theorem block_in_inline_accepts_any_parent_counterexample:
  "run_block_in_inline 20
     (Box BlockLevelBox (Element ''g'' None None [])
        [Box BlockLevelBox (Element ''a'' None None [])
           [Box InlineLevelBox (Element ''i'' None None [])
              [Box BlockLevelBox (Element ''b'' None None []) []]]]) =
   Ok (Box BlockLevelBox (Element ''g'' None None [])
        [Box AnonymousBlockLevelBox (Element ''a'' None None [])
           [Box BlockLevelBox (Element ''a'' None None [])
              [Box InlineLevelBox (Element ''i'' None None []) []]],
         Box BlockLevelBox (Element ''b'' None None []) [],
         Box AnonymousBlockLevelBox (Element ''a'' None None [])
           [Box InlineLevelBox (Element ''i'' None None []) []]])"
  by (simp add: run_block_in_inline_def heap_defs eval_nat_numeral)

text \<open>The same for any class but \<^verbatim>\<open>InlineLevelBox\<close>, any elements and any fuel from 20 on.\<close>

lemma any_parent_run:
  "c \<noteq> InlineLevelBox \<Longrightarrow>
     run_block_in_inline (20 + n)
       (Box BlockLevelBox e0 [Box c e1 [Box InlineLevelBox e2 [Box BlockLevelBox e3 []]]]) =
     Ok (Box BlockLevelBox e0
          [Box AnonymousBlockLevelBox e1 [Box c e1 [Box InlineLevelBox e2 []]],
           Box BlockLevelBox e3 [],
           Box AnonymousBlockLevelBox e1 [Box InlineLevelBox e2 []]])"
  by (simp add: run_block_in_inline_def heap_defs eval_nat_numeral)

text \<open>
  Claim C7, amended. For a block-level box whose parent is inline-level, the first loop walks
  the ancestors: with fuel \<open>n\<close> it either has not ended, or it has found the inline-level
  ancestors \<open>ips\<close>, nearest first, and the end \<open>r\<close> of their chain, and whenever the chain ends
  after \<open>ips\<close> any fuel above the length of \<open>ips\<close> is enough. The first ancestor that is not
  inline-level becomes \<^verbatim>\<open>parent_line_box\<close> whatever its class. When there is no such ancestor,
  or when it has no parent, \<open>block_in_inline\<close> raises \<^verbatim>\<open>AttributeError\<close> (reading an attribute
  of None). When it has a parent whose children hold it, the next statements run in every
  store, whether it is a \<^verbatim>\<open>LineBox\<close> or not: a new \<^verbatim>\<open>AnonymousBlockLevelBox\<close> for its element
  takes its place among the children of its parent and holds it as only child, and a second
  one is inserted right after. On a block-level box that holds a box of any class but
  \<^verbatim>\<open>InlineLevelBox\<close>, holding an inline-level box around a block-level box, the whole pass
  returns.
\<close>

theorem block_in_inline_parent_line_box:
  assumes "obj_is_block (box_at h box)"
    and "obj_parent (box_at h box) = Some p"
    and "obj_is_inline (box_at h p)"
  shows "(\<forall>n. collect_inline_parents n h box [] = Diverge \<or>
            (\<exists>ips r. collect_inline_parents n h box [] = Ok (ips, r) \<and>
               inline_ancestors h box ips r \<and> length ips < n)) \<and>
         (\<forall>ips r n. inline_ancestors h box ips r \<and> length ips < n \<longrightarrow>
            collect_inline_parents n h box [] = Ok (ips, r) \<and>
            prefix (ips @ (case r of None \<Rightarrow> [] | Some plb \<Rightarrow> [plb])) (parents n h box) \<and>
            (\<forall>a\<in>set ips. obj_is_inline (box_at h a)) \<and>
            (r = None \<longrightarrow>
               ips = parents n h box \<and>
               block_in_inline (Suc n) box h = Raise AttributeError) \<and>
            (\<forall>plb. r = Some plb \<longrightarrow>
               \<not> obj_is_inline (box_at h plb) \<and>
               (plb < box_count h \<and> obj_parent (box_at h plb) = None \<longrightarrow>
                  block_in_inline (Suc n) box h = Raise AttributeError) \<and>
               (\<forall>g l pre post.
                  plb < box_count h \<and> g < box_count h \<and> l < list_count h \<and>
                  obj_parent (box_at h plb) = Some g \<and> obj_children (box_at h g) = Some l \<and>
                  list_at h l = pre @ plb # post \<and> plb \<notin> set pre \<and>
                  (\<forall>b\<in>set pre. b < box_count h) \<longrightarrow>
                  then_do (insert_previous_anonymous_box r h)
                    (\<lambda>(previous_anonymous_box, h1).
                       insert_next_anonymous_box plb previous_anonymous_box h1) =
                  Ok (Suc (box_count h),
                      h\<lparr>box_at := (box_at h)
                           (box_count h :=
                              BoxObj AnonymousBlockLevelBox (obj_element (box_at h plb))
                                (Some g) (list_count h),
                            Suc (box_count h) :=
                              BoxObj AnonymousBlockLevelBox (obj_element (box_at h plb))
                                (Some g) (Suc (list_count h)),
                            plb := set_parent (Some (box_count h)) (box_at h plb)),
                        list_at := (list_at h)
                           (list_count h := [plb], Suc (list_count h) := [],
                            l := pre @ box_count h # Suc (box_count h) # post),
                        box_count := Suc (Suc (box_count h)),
                        list_count := Suc (Suc (list_count h))\<rparr>)))) \<and>
         (\<forall>c e0 e1 e2 e3 m. c \<noteq> InlineLevelBox \<longrightarrow>
            run_block_in_inline (20 + m)
              (Box BlockLevelBox e0 [Box c e1 [Box InlineLevelBox e2 [Box BlockLevelBox e3 []]]]) =
            Ok (Box BlockLevelBox e0
                 [Box AnonymousBlockLevelBox e1 [Box c e1 [Box InlineLevelBox e2 []]],
                  Box BlockLevelBox e3 [],
                  Box AnonymousBlockLevelBox e1 [Box InlineLevelBox e2 []]]))"
proof (intro conjI allI impI)
  fix n
  show "collect_inline_parents n h box [] = Diverge \<or>
          (\<exists>ips r. collect_inline_parents n h box [] = Ok (ips, r) \<and>
             inline_ancestors h box ips r \<and> length ips < n)"
    by (rule collect_inline_parents_cases)
next
  fix ips r n
  assume a: "inline_ancestors h box ips r \<and> length ips < n"
  then have c: "collect_inline_parents n h box [] = Ok (ips, r)"
    using collect_inline_parents_enough [of h box ips r n "[]"] by simp
  then show "collect_inline_parents n h box [] = Ok (ips, r)" .
  show "prefix (ips @ (case r of None \<Rightarrow> [] | Some plb \<Rightarrow> [plb])) (parents n h box)"
  proof (cases r)
    case None
    with c collect_inline_parents_None [of n h box "[]" ips] show ?thesis
      by simp
  next
    case (Some plb)
    with c collect_inline_parents_Some [of n h box "[]" ips plb] show ?thesis
      by simp
  qed
  show "\<forall>a\<in>set ips. obj_is_inline (box_at h a)"
  proof (cases r)
    case None
    with c collect_inline_parents_None [of n h box "[]" ips] show ?thesis
      by simp
  next
    case (Some plb)
    with c collect_inline_parents_Some [of n h box "[]" ips plb] show ?thesis
      by simp
  qed
  {
    assume "r = None"
    with c have c': "collect_inline_parents n h box [] = Ok (ips, None)"
      by simp
    from collect_inline_parents_None [OF c'] show "ips = parents n h box"
      by simp
    from split_inline_parents_no_line_box [OF c'] assms
    show "block_in_inline (Suc n) box h = Raise AttributeError"
      by (simp add: is_block_in_inline_def)
  }
  fix plb
  assume r: "r = Some plb"
  with c have c': "collect_inline_parents n h box [] = Ok (ips, Some plb)"
    by simp
  from collect_inline_parents_Some [OF c'] show "\<not> obj_is_inline (box_at h plb)"
    by simp
  {
    assume "plb < box_count h \<and> obj_parent (box_at h plb) = None"
    with split_inline_parents_no_parent [OF c'] assms
    show "block_in_inline (Suc n) box h = Raise AttributeError"
      by (simp add: is_block_in_inline_def)
  }
  fix g l pre post
  assume "plb < box_count h \<and> g < box_count h \<and> l < list_count h \<and>
          obj_parent (box_at h plb) = Some g \<and> obj_children (box_at h g) = Some l \<and>
          list_at h l = pre @ plb # post \<and> plb \<notin> set pre \<and>
          (\<forall>b\<in>set pre. b < box_count h)"
  then have "then_do (insert_previous_anonymous_box (Some plb) h)
           (\<lambda>(previous_anonymous_box, h1). insert_next_anonymous_box plb previous_anonymous_box h1) =
         Ok (Suc (box_count h),
             h\<lparr>box_at := (box_at h)
                   (box_count h := BoxObj AnonymousBlockLevelBox (obj_element (box_at h plb))
                                     (Some g) (list_count h),
                    Suc (box_count h) :=
                      BoxObj AnonymousBlockLevelBox (obj_element (box_at h plb))
                        (Some g) (Suc (list_count h)),
                    plb := set_parent (Some (box_count h)) (box_at h plb)),
               list_at := (list_at h)
                   (list_count h := [plb], Suc (list_count h) := [],
                    l := pre @ box_count h # Suc (box_count h) # post),
               box_count := Suc (Suc (box_count h)),
               list_count := Suc (Suc (list_count h))\<rparr>)"
    by (intro insert_anonymous_boxes) simp_all
  with r show "then_do (insert_previous_anonymous_box r h)
           (\<lambda>(previous_anonymous_box, h1). insert_next_anonymous_box plb previous_anonymous_box h1) =
         Ok (Suc (box_count h),
             h\<lparr>box_at := (box_at h)
                   (box_count h := BoxObj AnonymousBlockLevelBox (obj_element (box_at h plb))
                                     (Some g) (list_count h),
                    Suc (box_count h) :=
                      BoxObj AnonymousBlockLevelBox (obj_element (box_at h plb))
                        (Some g) (Suc (list_count h)),
                    plb := set_parent (Some (box_count h)) (box_at h plb)),
               list_at := (list_at h)
                   (list_count h := [plb], Suc (list_count h) := [],
                    l := pre @ box_count h # Suc (box_count h) # post),
               box_count := Suc (Suc (box_count h)),
               list_count := Suc (Suc (list_count h))\<rparr>)"
    by simp
next
  fix c e0 e1 e2 e3 m
  assume "c \<noteq> InlineLevelBox"
  then show "run_block_in_inline (20 + m)
              (Box BlockLevelBox e0 [Box c e1 [Box InlineLevelBox e2 [Box BlockLevelBox e3 []]]]) =
            Ok (Box BlockLevelBox e0
                 [Box AnonymousBlockLevelBox e1 [Box c e1 [Box InlineLevelBox e2 []]],
                  Box BlockLevelBox e3 [],
                  Box AnonymousBlockLevelBox e1 [Box InlineLevelBox e2 []]])"
    by (rule any_parent_run)
qed

text \<open>
  The amended claim in three stores: only inline-level ancestors; a line box without parent;
  and a \<^verbatim>\<open>BlockLevelBox\<close> with a parent, which is wrapped like a line box. The last part is the
  whole pass on a tree with a \<^verbatim>\<open>LineBox\<close>.
\<close>

theorem block_in_inline_parent_line_box_witness:
  "collect_inline_parents 5 orphan_heap 2 [] = Ok ([1, 0], None) \<and>
   block_in_inline 6 2 orphan_heap = Raise AttributeError \<and>
   block_in_inline 9 0 orphan_heap = Raise AttributeError \<and>
   collect_inline_parents 5 orphan_line_heap 2 [] = Ok ([1], Some 0) \<and>
   parents 5 orphan_line_heap 2 = [1, 0] \<and>
   block_in_inline 6 2 orphan_line_heap = Raise AttributeError \<and>
   collect_inline_parents 5 block_parent_heap 3 [] = Ok ([2], Some 1) \<and>
   then_do (insert_previous_anonymous_box (Some 1) block_parent_heap)
     (\<lambda>(previous_anonymous_box, h1). insert_next_anonymous_box 1 previous_anonymous_box h1) =
   Ok (5, block_parent_heap
            \<lparr>box_at := (box_at block_parent_heap)
               (4 := BoxObj AnonymousBlockLevelBox (Element ''a'' None None []) (Some 0) 4,
                5 := BoxObj AnonymousBlockLevelBox (Element ''a'' None None []) (Some 0) 5,
                1 := BoxObj BlockLevelBox (Element ''a'' None None []) (Some 4) 1),
             list_at := (list_at block_parent_heap)(4 := [1], 5 := [], 0 := [4, 5]),
             box_count := 6, list_count := 6\<rparr>) \<and>
   run_block_in_inline 20
     (Box BlockLevelBox (Element ''g'' None None [])
        [Box LineBox (Element ''a'' None None [])
           [Box InlineLevelBox (Element ''i'' None None [])
              [Box BlockLevelBox (Element ''b'' None None []) []]]]) =
   Ok (Box BlockLevelBox (Element ''g'' None None [])
        [Box AnonymousBlockLevelBox (Element ''a'' None None [])
           [Box LineBox (Element ''a'' None None [])
              [Box InlineLevelBox (Element ''i'' None None []) []]],
         Box BlockLevelBox (Element ''b'' None None []) [],
         Box AnonymousBlockLevelBox (Element ''a'' None None [])
           [Box InlineLevelBox (Element ''i'' None None []) []]])"
proof -
  have a: "obj_is_block (box_at orphan_heap 2)" "obj_parent (box_at orphan_heap 2) = Some 1"
    "obj_is_inline (box_at orphan_heap 1)"
    "inline_ancestors orphan_heap 2 [1, 0] None \<and> length [1::nat, 0] < 5"
    by (simp_all add: orphan_heap_def heap_defs eval_nat_numeral)
  have b: "obj_is_block (box_at orphan_line_heap 2)" "obj_parent (box_at orphan_line_heap 2) = Some 1"
    "obj_is_inline (box_at orphan_line_heap 1)"
    "inline_ancestors orphan_line_heap 2 [1] (Some 0) \<and> length [1::nat] < 5"
    "0 < box_count orphan_line_heap \<and> obj_parent (box_at orphan_line_heap 0) = None"
    "parents 5 orphan_line_heap 2 = [1, 0]"
    by (simp_all add: orphan_line_heap_def heap_defs eval_nat_numeral)
  have c: "block_in_inline 9 0 orphan_heap = Raise AttributeError"
    by (simp add: orphan_heap_def heap_defs eval_nat_numeral)
  have d: "obj_is_block (box_at block_parent_heap 3)"
    "obj_parent (box_at block_parent_heap 3) = Some 2"
    "obj_is_inline (box_at block_parent_heap 2)"
    "inline_ancestors block_parent_heap 3 [2] (Some 1) \<and> length [2::nat] < 5"
    by (simp_all add: block_parent_heap_def heap_defs eval_nat_numeral)
  have e: "box_count block_parent_heap = 4" "list_count block_parent_heap = 4"
    "box_at block_parent_heap 1 = BoxObj BlockLevelBox (Element ''a'' None None []) (Some 0) 1"
    "obj_children (box_at block_parent_heap 0) = Some 0"
    "list_at block_parent_heap 0 = [] @ 1 # []"
    by (simp_all add: block_parent_heap_def heap_defs eval_nat_numeral)
  note t1 = block_in_inline_parent_line_box [OF a(1-3), THEN conjunct2, THEN conjunct1,
      rule_format, OF a(4)]
  note t2 = block_in_inline_parent_line_box [OF b(1-3), THEN conjunct2, THEN conjunct1,
      rule_format, OF b(4)]
  note t3 = block_in_inline_parent_line_box [OF d(1-3), THEN conjunct2, THEN conjunct1,
      rule_format, OF d(4)]
  from t1 have 1: "collect_inline_parents 5 orphan_heap 2 [] = Ok ([1, 0], None)"
    "block_in_inline 6 2 orphan_heap = Raise AttributeError"
    by (simp_all add: eval_nat_numeral)
  from t2 b(5) have 2: "collect_inline_parents 5 orphan_line_heap 2 [] = Ok ([1], Some 0)"
    "block_in_inline 6 2 orphan_line_heap = Raise AttributeError"
    by (simp_all add: eval_nat_numeral)
  from t3 have 3: "collect_inline_parents 5 block_parent_heap 3 [] = Ok ([2], Some 1)"
    by simp
  from t3 have "\<forall>g l pre post.
      1 < box_count block_parent_heap \<and> g < box_count block_parent_heap \<and>
      l < list_count block_parent_heap \<and>
      obj_parent (box_at block_parent_heap 1) = Some g \<and>
      obj_children (box_at block_parent_heap g) = Some l \<and>
      list_at block_parent_heap l = pre @ 1 # post \<and> 1 \<notin> set pre \<and>
      (\<forall>b\<in>set pre. b < box_count block_parent_heap) \<longrightarrow>
      then_do (insert_previous_anonymous_box (Some 1) block_parent_heap)
        (\<lambda>(previous_anonymous_box, h1). insert_next_anonymous_box 1 previous_anonymous_box h1) =
      Ok (Suc (box_count block_parent_heap),
          block_parent_heap\<lparr>box_at := (box_at block_parent_heap)
               (box_count block_parent_heap :=
                  BoxObj AnonymousBlockLevelBox (obj_element (box_at block_parent_heap 1))
                    (Some g) (list_count block_parent_heap),
                Suc (box_count block_parent_heap) :=
                  BoxObj AnonymousBlockLevelBox (obj_element (box_at block_parent_heap 1))
                    (Some g) (Suc (list_count block_parent_heap)),
                1 := set_parent (Some (box_count block_parent_heap)) (box_at block_parent_heap 1)),
            list_at := (list_at block_parent_heap)
               (list_count block_parent_heap := [1], Suc (list_count block_parent_heap) := [],
                l := pre @ box_count block_parent_heap # Suc (box_count block_parent_heap) # post),
            box_count := Suc (Suc (box_count block_parent_heap)),
            list_count := Suc (Suc (list_count block_parent_heap))\<rparr>)"
    by blast
  from this [THEN spec, THEN spec, THEN spec, THEN spec, of 0 0 "[]" "[]"] e
  have 4: "then_do (insert_previous_anonymous_box (Some 1) block_parent_heap)
     (\<lambda>(previous_anonymous_box, h1). insert_next_anonymous_box 1 previous_anonymous_box h1) =
   Ok (5, block_parent_heap
            \<lparr>box_at := (box_at block_parent_heap)
               (4 := BoxObj AnonymousBlockLevelBox (Element ''a'' None None []) (Some 0) 4,
                5 := BoxObj AnonymousBlockLevelBox (Element ''a'' None None []) (Some 0) 5,
                1 := BoxObj BlockLevelBox (Element ''a'' None None []) (Some 4) 1),
             list_at := (list_at block_parent_heap)(4 := [1], 5 := [], 0 := [4, 5]),
             box_count := 6, list_count := 6\<rparr>)"
    by (simp add: eval_nat_numeral)
  from block_in_inline_parent_line_box [OF a(1-3), THEN conjunct2, THEN conjunct2]
  have 5: "run_block_in_inline (20 + 0)
     (Box BlockLevelBox (Element ''g'' None None [])
        [Box LineBox (Element ''a'' None None [])
           [Box InlineLevelBox (Element ''i'' None None [])
              [Box BlockLevelBox (Element ''b'' None None []) []]]]) =
   Ok (Box BlockLevelBox (Element ''g'' None None [])
        [Box AnonymousBlockLevelBox (Element ''a'' None None [])
           [Box LineBox (Element ''a'' None None [])
              [Box InlineLevelBox (Element ''i'' None None []) []]],
         Box BlockLevelBox (Element ''b'' None None []) [],
         Box AnonymousBlockLevelBox (Element ''a'' None None [])
           [Box InlineLevelBox (Element ''i'' None None []) []]])"
    by blast
  from b(6) c 1 2 3 4 5 show ?thesis
    by simp
qed

text \<open>
  Claim C8. For a block-level box whose only child is a \<^verbatim>\<open>LineBox\<close> that holds one
  \<^verbatim>\<open>InlineLevelBox\<close> that holds one block-level box (without children, or with a line of
  text), \<open>block_in_inline\<close> puts three boxes in the place of the line box: an
  \<^verbatim>\<open>AnonymousBlockLevelBox\<close> around the line box, whose inline-level box is now empty; the
  block-level box itself; and an \<^verbatim>\<open>AnonymousBlockLevelBox\<close> that holds a new empty
  \<^verbatim>\<open>InlineLevelBox\<close> for the element of the original one. Any fuel from 20 on is enough.
\<close>

theorem block_in_inline_split_scenario:
  "is_block_class c0 \<and> is_block_class cb \<longrightarrow>
   run_block_in_inline (20 + n)
     (Box c0 e0 [Box LineBox eL [Box InlineLevelBox eI [Box cb eB []]]]) =
   Ok (Box c0 e0
        [Box AnonymousBlockLevelBox eL [Box LineBox eL [Box InlineLevelBox eI []]],
         Box cb eB [],
         Box AnonymousBlockLevelBox eL [Box InlineLevelBox eI []]]) \<and>
   run_block_in_inline (20 + n)
     (Box c0 e0 [Box LineBox eL [Box InlineLevelBox eI
        [Box cb eB [Box LineBox eB [TextBox eB s]]]]]) =
   Ok (Box c0 e0
        [Box AnonymousBlockLevelBox eL [Box LineBox eL [Box InlineLevelBox eI []]],
         Box cb eB [Box LineBox eB [TextBox eB s]],
         Box AnonymousBlockLevelBox eL [Box InlineLevelBox eI []]])"
  by (simp add: run_block_in_inline_def heap_defs eval_nat_numeral)

text \<open>Claim C8 for a paragraph with an emphasis around a division.\<close>

theorem block_in_inline_split_scenario_witness:
  "run_block_in_inline 20
     (Box BlockLevelBox (Element ''p'' None None [])
        [Box LineBox (Element ''p'' None None [])
           [Box InlineLevelBox (Element ''em'' None None [])
              [Box BlockLevelBox (Element ''div'' None None []) []]]]) =
   Ok (Box BlockLevelBox (Element ''p'' None None [])
        [Box AnonymousBlockLevelBox (Element ''p'' None None [])
           [Box LineBox (Element ''p'' None None [])
              [Box InlineLevelBox (Element ''em'' None None []) []]],
         Box BlockLevelBox (Element ''div'' None None []) [],
         Box AnonymousBlockLevelBox (Element ''p'' None None [])
           [Box InlineLevelBox (Element ''em'' None None []) []]])"
  using block_in_inline_split_scenario [of BlockLevelBox BlockLevelBox 0 "Element ''p'' None None []"
      "Element ''p'' None None []" "Element ''em'' None None []" "Element ''div'' None None []"]
  by simp

text \<open>
  The invariant of claim C1 does not follow from its premise alone (every block-level box has
  exactly one \<^verbatim>\<open>LineBox\<close> child or only block-level children). \<open>block_in_inline\<close> splits at a
  block-level box only when its parent is inline-level: in this settled tree the block-level
  box is in a \<^verbatim>\<open>LineBox\<close> inside the inline-level box, the pass returns the tree as it was,
  and the inline-level box still has a block-level box below it.
\<close>

theorem block_in_inline_keeps_line_box_in_inline:
  "settled line_in_inline_example \<and>
   run_block_in_inline 20 line_in_inline_example = Ok line_in_inline_example \<and>
   \<not> no_block_in_inline line_in_inline_example"
proof (intro conjI)
  show "settled line_in_inline_example"
    by (simp add: settled_def settled_box_def one_line_box_def line_in_inline_example_def)
  show "run_block_in_inline 20 line_in_inline_example = Ok line_in_inline_example"
    by (simp add: line_in_inline_example_def run_block_in_inline_def heap_defs eval_nat_numeral)
  show "\<not> no_block_in_inline line_in_inline_example"
    by (simp add: no_block_in_inline_def line_in_inline_example_def)
qed

text \<open>The run on the tree, written out.\<close>

theorem block_in_inline_keeps_line_box_in_inline_witness:
  "run_block_in_inline 20
     (Box BlockLevelBox (Element ''block'' None None [])
       [Box LineBox (Element ''block'' None None [])
          [Box InlineLevelBox (Element ''inline'' None None [])
             [Box LineBox (Element ''inline'' None None [])
                [Box BlockLevelBox (Element ''block'' None None []) []]]]]) =
   Ok (Box BlockLevelBox (Element ''block'' None None [])
       [Box LineBox (Element ''block'' None None [])
          [Box InlineLevelBox (Element ''inline'' None None [])
             [Box LineBox (Element ''inline'' None None [])
                [Box BlockLevelBox (Element ''block'' None None []) []]]]])"
  using block_in_inline_keeps_line_box_in_inline
  by (simp add: line_in_inline_example_def)

end
